theory Spec2Isabelle
  imports Complex_Main "HOL-Library.FSet" "HOL-Library.Sublist" "HOL-Library.Multiset"
begin

section \<open>Data model (sanzo\_n8n\_mcp/models.py)\<close>

datatype WorkflowType =
  CUSTOMER_ANALYSIS | FOLLOW_UP_SEQUENCES | CRM_LEAD_MANAGEMENT | PHOTO_ANALYSIS_PROCESSING

text \<open>\<^verbatim>\<open>WorkflowType.value\<close>: the string of each member of the enum.\<close>

fun type_value :: "WorkflowType \<Rightarrow> string" where
  "type_value CUSTOMER_ANALYSIS = ''customer-analysis''"
| "type_value FOLLOW_UP_SEQUENCES = ''follow-up-sequences''"
| "type_value CRM_LEAD_MANAGEMENT = ''crm-lead-management''"
| "type_value PHOTO_ANALYSIS_PROCESSING = ''photo-analysis-processing''"

datatype WorkflowStatus = PENDING | RUNNING | COMPLETED | FAILED | CANCELLED | TIMEOUT

text \<open>
  \<^verbatim>\<open>Dict[str, Any]\<close>: an insertion-ordered association list with distinct keys; the
  values that the orchestration layer itself writes are strings and integers.
\<close>

datatype any = Str string | Num int

type_synonym dict = "(string \<times> any) list"

fun dict_set :: "string \<Rightarrow> any \<Rightarrow> dict \<Rightarrow> dict" where
  "dict_set k v [] = [(k, v)]"
| "dict_set k v ((k', v') # d) = (if k = k' then (k, v) # d else (k', v') # dict_set k v d)"

text \<open>\<^verbatim>\<open>d.update(other)\<close>: every item of \<open>other\<close>, in its order, is stored into \<open>d\<close>.\<close>

definition dict_update :: "dict \<Rightarrow> dict \<Rightarrow> dict" where
  "dict_update d other = fold (\<lambda>(k, v). dict_set k v) other d"

text \<open>
  A \<^verbatim>\<open>datetime\<close> is a number of microseconds; a \<^verbatim>\<open>timedelta\<close> is a difference of two.
  \<^verbatim>\<open>total_seconds()\<close> is the exact quotient (the rounding of Python's float is not
  modelled; durations and rates are rationals).
\<close>

type_synonym datetime = int

definition timedelta_days :: "int \<Rightarrow> int" where
  "timedelta_days d = d * 86400000000"

definition timedelta_hours :: "int \<Rightarrow> int" where
  "timedelta_hours h = h * 3600000000"

definition total_seconds :: "int \<Rightarrow> rat" where
  "total_seconds d = of_int d / 1000000"

record WorkflowExecution =
  execution_id :: string
  workflow_type :: WorkflowType
  status :: WorkflowStatus
  input_data :: dict
  output_data :: "dict option"
  error_message :: "string option"
  started_at :: datetime
  completed_at :: "datetime option"
  duration_seconds :: "rat option"
  n8n_execution_id :: "string option"
  correlation_id :: "string option"
  retry_count :: int

text \<open>Fields of the other models carry a prefix where the name is already a field above.\<close>

record WorkflowMetrics =
  metrics_workflow_type :: WorkflowType
  total_executions :: nat
  successful_executions :: nat
  failed_executions :: nat
  average_duration_seconds :: rat
  success_rate :: rat
  last_execution :: "datetime option"

record BatchWorkflowRequest =
  workflows :: "WorkflowType list"
  shared_data :: dict
  individual_data :: "WorkflowType \<rightharpoonup> dict"
  delay_between_workflows :: int
  fail_fast :: bool
  batch_correlation_id :: "string option"

record WorkflowTriggerConfig =
  trigger_name :: string
  trigger_workflow_type :: WorkflowType
  trigger_conditions :: dict
  trigger_schedule :: "string option"
  enabled :: bool
  max_executions_per_hour :: int
  data_template :: dict

section \<open>WorkflowQueue (sanzo\_n8n\_mcp/workflow\_manager.py)\<close>

text \<open>
  Python shares one \<^verbatim>\<open>WorkflowExecution\<close> object between the submitter, the deque, the
  completed map and the metrics store, and mutates it in place. The model keeps the
  objects in a store (\<open>heap\<close>, from addresses to records); the containers hold addresses.
\<close>

type_synonym ref = nat

record WorkflowQueue =
  queue :: "ref list"
  maxlen :: nat
  running_workflows :: "string fset"
  completed_workflows :: "string \<rightharpoonup> ref"
  max_concurrent :: nat

definition WorkflowQueue_init :: "nat \<Rightarrow> WorkflowQueue" where
  "WorkflowQueue_init max_size =
     \<lparr>queue = [], maxlen = max_size, running_workflows = {||},
      completed_workflows = Map.empty, max_concurrent = 5\<rparr>"

definition add_workflow :: "WorkflowQueue \<Rightarrow> ref \<Rightarrow> bool \<times> WorkflowQueue" where
  "add_workflow q execution =
     (if length (queue q) \<ge> maxlen q then (False, q)
      else (True, q\<lparr>queue := queue q @ [execution]\<rparr>))"

definition get_next_workflow :: "WorkflowQueue \<Rightarrow> ref option \<times> WorkflowQueue" where
  "get_next_workflow q =
     (if fcard (running_workflows q) \<ge> max_concurrent q then (None, q)
      else (case queue q of
              [] \<Rightarrow> (None, q)
            | x # rest \<Rightarrow> (Some x, q\<lparr>queue := rest\<rparr>)))"

definition mark_running :: "WorkflowQueue \<Rightarrow> string \<Rightarrow> WorkflowQueue" where
  "mark_running q eid = q\<lparr>running_workflows := finsert eid (running_workflows q)\<rparr>"

definition mark_completed ::
  "(ref \<Rightarrow> WorkflowExecution) \<Rightarrow> WorkflowQueue \<Rightarrow> ref \<Rightarrow> WorkflowQueue" where
  "mark_completed h q execution =
     q\<lparr>running_workflows := running_workflows q |-| {|execution_id (h execution)|},
       completed_workflows := (completed_workflows q)(execution_id (h execution) \<mapsto> execution)\<rparr>"

definition get_queue_size :: "WorkflowQueue \<Rightarrow> nat" where
  "get_queue_size q = length (queue q)"

definition get_running_count :: "WorkflowQueue \<Rightarrow> nat" where
  "get_running_count q = fcard (running_workflows q)"

section \<open>WorkflowManager and its environment\<close>

text \<open>
  The gateway (\<^verbatim>\<open>N8NClient.trigger_workflow\<close>) is external: it returns an execution
  record of its own or raises. What the background drain task does while a caller
  sleeps is given by a schedule: each entry is the list of drain-loop events that run
  during one sleep, and by how many microseconds the sleep overshoots.
\<close>

datatype gateway_outcome = Returned WorkflowExecution | Raised string

datatype event = DrainDequeue | GatewayDone gateway_outcome

record world =
  heap :: "ref \<Rightarrow> WorkflowExecution"
  next_obj :: ref
  wqueue :: WorkflowQueue
  metrics_store :: "WorkflowType \<Rightarrow> ref list"
  clock :: datetime
  in_flight :: "ref option"
  sched :: "(event list \<times> nat) list"
  uuid_hex :: "nat \<Rightarrow> string"
  uuid_drawn :: nat

text \<open>\<^verbatim>\<open>sorted(xs, key=key, reverse=True)\<close>: stable, descending.\<close>

definition sorted_reverse :: "('a \<Rightarrow> int) \<Rightarrow> 'a list \<Rightarrow> 'a list" where
  "sorted_reverse key xs = rev (sort_key key (rev xs))"

definition max_executions_per_type :: nat where
  "max_executions_per_type = 1000"

text \<open>\<^verbatim>\<open>WorkflowManager._update_metrics\<close>\<close>

definition update_metrics :: "world \<Rightarrow> ref \<Rightarrow> world" where
  "update_metrics w execution =
     (let wt = workflow_type (heap w execution);
          appended = metrics_store w wt @ [execution]
      in w\<lparr>metrics_store := (metrics_store w)
             (wt := (if length appended > max_executions_per_type
                     then take max_executions_per_type
                            (sorted_reverse (\<lambda>e. started_at (heap w e)) appended)
                     else appended))\<rparr>)"

text \<open>
  \<^verbatim>\<open>WorkflowManager.get_workflow_metrics\<close>. The comprehension for \<open>durations\<close> tests
  \<^verbatim>\<open>e.duration_seconds and ...\<close>: Python's truth value of an optional float, false for
  \<^verbatim>\<open>None\<close> and for \<^verbatim>\<open>0.0\<close>.
\<close>

definition truthy :: "rat option \<Rightarrow> bool" where
  "truthy d = (case d of None \<Rightarrow> False | Some x \<Rightarrow> x \<noteq> 0)"

definition completed_durations :: "WorkflowExecution list \<Rightarrow> rat list" where
  "completed_durations executions =
     concat (map (\<lambda>e. case duration_seconds e of
                         None \<Rightarrow> []
                       | Some d \<Rightarrow> if truthy (duration_seconds e) \<and> status e = COMPLETED
                                   then [d] else []) executions)"

definition get_workflow_metrics :: "world \<Rightarrow> WorkflowType \<Rightarrow> WorkflowMetrics" where
  "get_workflow_metrics w wt =
     (let executions = map (heap w) (metrics_store w wt)
      in if executions = [] then
           \<lparr>metrics_workflow_type = wt, total_executions = 0, successful_executions = 0,
            failed_executions = 0, average_duration_seconds = 0, success_rate = 0,
            last_execution = None\<rparr>
         else
           (let total = length executions;
                successful = length (filter (\<lambda>e. status e = COMPLETED) executions);
                failed = length (filter (\<lambda>e. status e = FAILED) executions);
                durations = completed_durations executions;
                avg_duration = (if durations \<noteq> []
                                then sum_list durations / of_nat (length durations) else 0);
                last = Some (Max (set (map started_at executions)))
            in \<lparr>metrics_workflow_type = wt, total_executions = total,
                successful_executions = successful, failed_executions = failed,
                average_duration_seconds = avg_duration,
                success_rate = (if total > 0 then of_nat successful / of_nat total * 100 else 0),
                last_execution = last\<rparr>))"

text \<open>\<^verbatim>\<open>WorkflowManager._should_trigger_workflow\<close>\<close>

definition recent_executions :: "world \<Rightarrow> WorkflowType \<Rightarrow> datetime \<Rightarrow> ref list" where
  "recent_executions w wt current_time =
     filter (\<lambda>e. started_at (heap w e) > current_time - timedelta_hours 1) (metrics_store w wt)"

definition should_trigger_workflow :: "world \<Rightarrow> WorkflowTriggerConfig \<Rightarrow> datetime \<Rightarrow> bool" where
  "should_trigger_workflow w trigger_config current_time =
     (if int (length (recent_executions w (trigger_workflow_type trigger_config) current_time))
           \<ge> max_executions_per_hour trigger_config
      then False
      else False)"

text \<open>\<^verbatim>\<open>WorkflowManager.cleanup_old_executions\<close>\<close>

definition cleanup_old_executions :: "int \<Rightarrow> world \<Rightarrow> world" where
  "cleanup_old_executions retention_days w =
     (let cutoff_date = clock w - timedelta_days retention_days
      in w\<lparr>metrics_store :=
             (\<lambda>wt. filter (\<lambda>e. started_at (heap w e) > cutoff_date) (metrics_store w wt)),
           wqueue := (wqueue w)\<lparr>completed_workflows :=
             (\<lambda>eid. case completed_workflows (wqueue w) eid of
                      None \<Rightarrow> None
                    | Some e \<Rightarrow> if started_at (heap w e) < cutoff_date then None else Some e)\<rparr>\<rparr>)"

section \<open>The drain loop and the polling wait\<close>

text \<open>\<^verbatim>\<open>str(n)\<close> for an integer, used by the f-string of the timeout message.\<close>

function str_nat :: "nat \<Rightarrow> string" where
  "str_nat n = (if n < 10 then [''0123456789'' ! n]
                else str_nat (n div 10) @ [''0123456789'' ! (n mod 10)])"
  by pat_completeness auto
termination
  by (relation "measure (\<lambda>n. n)") auto

definition str_int :: "int \<Rightarrow> string" where
  "str_int i = (if i < 0 then CHR ''-'' # str_nat (nat (- i)) else str_nat (nat i))"

text \<open>
  One iteration of \<^verbatim>\<open>_process_workflow_queue\<close> is two events, because the task is
  suspended in between, at \<^verbatim>\<open>await self.n8n_client.trigger_workflow(...)\<close>:
  \<open>DrainDequeue\<close> is \<^verbatim>\<open>get_next_workflow\<close> followed by \<^verbatim>\<open>mark_running\<close>, after which
  the loop holds the dequeued object (\<open>in_flight\<close>); \<open>GatewayDone\<close> is the write-back
  of the outcome onto that object followed by \<^verbatim>\<open>mark_completed\<close>. There is one drain
  task, so nothing is dequeued while an object is in flight.
\<close>

fun run_event :: "event \<Rightarrow> world \<Rightarrow> world" where
  "run_event DrainDequeue w =
     (case in_flight w of
        Some _ \<Rightarrow> w
      | None \<Rightarrow>
          (case get_next_workflow (wqueue w) of
             (None, _) \<Rightarrow> w
           | (Some workflow, q) \<Rightarrow>
               w\<lparr>wqueue := mark_running q (execution_id (heap w workflow)),
                 in_flight := Some workflow\<rparr>))"
| "run_event (GatewayDone outcome) w =
     (case in_flight w of
        None \<Rightarrow> w
      | Some workflow \<Rightarrow>
          (let old = heap w workflow;
               new = (case outcome of
                        Returned result \<Rightarrow>
                          old\<lparr>status := status result,
                              output_data := output_data result,
                              error_message := error_message result,
                              completed_at := completed_at result,
                              duration_seconds := duration_seconds result,
                              n8n_execution_id := n8n_execution_id result\<rparr>
                      | Raised e \<Rightarrow>
                          old\<lparr>status := FAILED,
                              error_message := Some (''Execution failed: '' @ e),
                              completed_at := Some (clock w),
                              duration_seconds :=
                                Some (total_seconds (clock w - started_at old))\<rparr>);
               h = (heap w)(workflow := new)
           in w\<lparr>heap := h, wqueue := mark_completed h (wqueue w) workflow,
                in_flight := None\<rparr>))"

text \<open>
  \<^verbatim>\<open>await asyncio.sleep(d)\<close>, \<open>d\<close> in microseconds: the next entry of the schedule
  runs, then the clock reads at least \<open>d\<close> later.
\<close>

definition sleep :: "nat \<Rightarrow> world \<Rightarrow> world" where
  "sleep d w =
     (case sched w of
        [] \<Rightarrow> w\<lparr>clock := clock w + int d\<rparr>
      | (evs, over) # rest \<Rightarrow>
          (fold run_event evs (w\<lparr>sched := rest\<rparr>))\<lparr>clock := clock w + int d + int over\<rparr>)"

text \<open>The lines after the polling loop of \<^verbatim>\<open>execute_workflow\<close> ("Timeout occurred").\<close>

definition timed_out :: "ref \<Rightarrow> int \<Rightarrow> world \<Rightarrow> ref \<times> world" where
  "timed_out execution timeout w =
     (let new = (heap w execution)
                  \<lparr>status := TIMEOUT,
                   error_message :=
                     Some (''Workflow timed out after '' @ str_int timeout @ '' seconds''),
                   completed_at := Some (clock w)\<rparr>
      in (execution, update_metrics (w\<lparr>heap := (heap w)(execution := new)\<rparr>) execution))"

text \<open>
  The polling loop of \<^verbatim>\<open>execute_workflow\<close>. The guard
  \<^verbatim>\<open>(datetime.now() - start_time).total_seconds() < timeout\<close> is written in microseconds.
  \<^verbatim>\<open>execution in self.queue.queue\<close> compares by identity, then by field-wise equality.
\<close>

function poll :: "ref \<Rightarrow> int \<Rightarrow> datetime \<Rightarrow> world \<Rightarrow> ref \<times> world" where
  "poll execution timeout start_time w =
     (if clock w - start_time < timeout * 1000000 then
        (case completed_workflows (wqueue w) (execution_id (heap w execution)) of
           Some completed_execution \<Rightarrow>
             (completed_execution, update_metrics w completed_execution)
         | None \<Rightarrow>
             if execution_id (heap w execution) |\<in>| running_workflows (wqueue w)
             then poll execution timeout start_time (sleep 1000000 w)
             else if heap w execution \<in> heap w ` set (queue (wqueue w))
             then poll execution timeout start_time (sleep 500000 w)
             else timed_out execution timeout w)
      else timed_out execution timeout w)"
  by pat_completeness auto
termination
proof (relation "measure (\<lambda>(e, t, s, w). nat (s + t * 1000000 - clock w))")
  show "wf (measure (\<lambda>(e, t, s, w). nat (s + t * 1000000 - clock w)))"
    by simp
next
  fix execution :: ref and timeout start_time :: int and w :: world
  assume "clock w - start_time < timeout * 1000000"
  moreover have "clock w + 1000000 \<le> clock (sleep 1000000 w)"
    by (simp add: sleep_def split: list.splits prod.splits)
  ultimately show "((execution, timeout, start_time, sleep 1000000 w),
                    (execution, timeout, start_time, w))
        \<in> measure (\<lambda>(e, t, s, w). nat (s + t * 1000000 - clock w))"
    by simp
next
  fix execution :: ref and timeout start_time :: int and w :: world
  assume "clock w - start_time < timeout * 1000000"
  moreover have "clock w + 500000 \<le> clock (sleep 500000 w)"
    by (simp add: sleep_def split: list.splits prod.splits)
  ultimately show "((execution, timeout, start_time, sleep 500000 w),
                    (execution, timeout, start_time, w))
        \<in> measure (\<lambda>(e, t, s, w). nat (s + t * 1000000 - clock w))"
    by simp
qed

text \<open>
  \<^verbatim>\<open>WorkflowManager.execute_workflow\<close>. The parameter \<^verbatim>\<open>priority\<close> is never read and
  is left out. \<^verbatim>\<open>uuid.uuid4().hex[:8]\<close> draws the next string of \<open>uuid_hex\<close>.
  \<^verbatim>\<open>timeout_override or 300\<close> is 300 for \<^verbatim>\<open>None\<close> and for 0.
\<close>

definition execute_workflow ::
  "WorkflowType \<Rightarrow> dict \<Rightarrow> string option \<Rightarrow> int option \<Rightarrow> world \<Rightarrow> ref \<times> world" where
  "execute_workflow wt data corr timeout_override w =
     (let execution = next_obj w;
          record = \<lparr>execution_id = type_value wt @ ''_'' @ uuid_hex w (uuid_drawn w),
                    workflow_type = wt, status = PENDING, input_data = data,
                    output_data = None, error_message = None, started_at = clock w,
                    completed_at = None, duration_seconds = None, n8n_execution_id = None,
                    correlation_id = corr, retry_count = 0\<rparr>;
          w1 = w\<lparr>heap := (heap w)(execution := record), next_obj := Suc execution,
                 uuid_drawn := Suc (uuid_drawn w)\<rparr>
      in case add_workflow (wqueue w1) execution of
           (False, _) \<Rightarrow>
             (execution,
              w1\<lparr>heap := (heap w1)(execution := record
                   \<lparr>status := FAILED, error_message := Some ''Workflow queue is full'',
                    completed_at := Some (clock w1)\<rparr>)\<rparr>)
         | (True, q) \<Rightarrow>
             (let timeout = (case timeout_override of
                               None \<Rightarrow> 300
                             | Some t \<Rightarrow> if t = 0 then 300 else t);
                  w2 = w1\<lparr>wqueue := q\<rparr>
              in poll execution timeout (clock w2) w2))"

section \<open>Batches\<close>

text \<open>
  Calling the \<^verbatim>\<open>async def execute_workflow\<close> only builds a coroutine object; its body
  runs when the object is awaited. A coroutine object can be awaited once: awaiting it
  again raises \<^verbatim>\<open>RuntimeError\<close>. A task of the batch is the coroutine with the flag
  "already awaited".
\<close>

datatype coroutine = Coroutine WorkflowType dict "string option"

type_synonym task = "coroutine \<times> bool"

datatype py_error = RuntimeError string

record BatchWorkflowResult =
  batch_id :: string
  total_workflows :: nat
  successful_workflows :: nat
  failed_workflows :: nat
  execution_results :: "ref list"
  batch_started_at :: datetime
  batch_completed_at :: "datetime option"
  total_duration_seconds :: "rat option"

definition await :: "task \<Rightarrow> world \<Rightarrow> py_error + (ref \<times> world)" where
  "await t w =
     (case t of
        (Coroutine wt data corr, awaited) \<Rightarrow>
          if awaited then Inl (RuntimeError ''cannot reuse already awaited coroutine'')
          else Inr (execute_workflow wt data corr None w))"

definition workflow_data_for ::
  "BatchWorkflowRequest \<Rightarrow> string \<Rightarrow> nat \<Rightarrow> WorkflowType \<Rightarrow> dict" where
  "workflow_data_for req bid i wt =
     (let shared = shared_data req;
          merged = (case individual_data req wt of
                      None \<Rightarrow> shared
                    | Some own \<Rightarrow> dict_update shared own)
      in dict_update merged
           [(''batchId'', Str bid), (''batchIndex'', Num (int i)),
            (''batchTotal'', Num (int (length (workflows req))))])"

text \<open>
  The first loop of \<^verbatim>\<open>execute_batch_workflows\<close> ("Prepare execution tasks"), over
  \<^verbatim>\<open>enumerate(batch_request.workflows)\<close>; \<open>tasks\<close> is \<^verbatim>\<open>execution_tasks\<close>.
\<close>

fun prepare_tasks ::
  "BatchWorkflowRequest \<Rightarrow> string \<Rightarrow> (nat \<times> WorkflowType) list \<Rightarrow> task list \<Rightarrow> world
     \<Rightarrow> py_error + (task list \<times> world)" where
  "prepare_tasks req bid [] tasks w = Inr (tasks, w)"
| "prepare_tasks req bid ((i, wt) # rest) tasks w =
     (let workflow_data = workflow_data_for req bid i wt;
          w1 = (if delay_between_workflows req > 0 \<and> i > 0
                then sleep (nat (delay_between_workflows req * 1000)) w else w);
          task = Coroutine wt workflow_data (Some bid);
          tasks1 = tasks @ [(task, False)]
      in if fail_fast req \<and> tasks1 \<noteq> [] then
           (case await (last tasks1) w1 of
              Inl e \<Rightarrow> Inl e
            | Inr (previous_result, w2) \<Rightarrow>
                (let tasks2 = butlast tasks1 @ [(task, True)]
                 in if status (heap w2 previous_result) = FAILED then Inr (tasks2, w2)
                    else prepare_tasks req bid rest tasks2 w2))
         else prepare_tasks req bid rest tasks1 w1)"

text \<open>The second loop, taken when \<^verbatim>\<open>fail_fast\<close> ("Execute one by one").\<close>

fun await_one_by_one ::
  "task list \<Rightarrow> ref list \<Rightarrow> world \<Rightarrow> py_error + (ref list \<times> world)" where
  "await_one_by_one [] results w = Inr (results, w)"
| "await_one_by_one (t # ts) results w =
     (case await t w of
        Inl e \<Rightarrow> Inl e
      | Inr (result, w1) \<Rightarrow>
          if status (heap w1 result) = FAILED then Inr (results @ [result], w1)
          else await_one_by_one ts (results @ [result]) w1)"

text \<open>
  The third loop ("Process results"): an entry of \<open>results\<close> is an execution or, from
  \<^verbatim>\<open>gather(..., return_exceptions=True)\<close>, an exception.
\<close>

fun process_results ::
  "(ref \<Rightarrow> WorkflowExecution) \<Rightarrow> (py_error + ref) list \<Rightarrow> ref list \<times> nat \<times> nat
     \<Rightarrow> ref list \<times> nat \<times> nat" where
  "process_results h [] acc = acc"
| "process_results h (Inr result # rest) (collected, successful_count, failed_count) =
     process_results h rest
       (collected @ [result],
        (if status (h result) = COMPLETED then successful_count + 1 else successful_count),
        (if status (h result) \<noteq> COMPLETED \<and> status (h result) \<in> {FAILED, TIMEOUT}
         then failed_count + 1 else failed_count))"
| "process_results h (Inl e # rest) (collected, successful_count, failed_count) =
     process_results h rest (collected, successful_count, failed_count + 1)"

text \<open>
  \<^verbatim>\<open>WorkflowManager.execute_batch_workflows\<close>. How \<^verbatim>\<open>asyncio.gather\<close> interleaves the
  coroutines of a batch without \<^verbatim>\<open>fail_fast\<close> belongs to the event loop: it is the
  parameter \<open>gather\<close>. The batch id is \<^verbatim>\<open>correlation_id or f"batch_{uuid...}"\<close>.
\<close>

definition batch_id_of :: "BatchWorkflowRequest \<Rightarrow> world \<Rightarrow> string \<times> world" where
  "batch_id_of req w =
     (let fresh = (''batch_'' @ uuid_hex w (uuid_drawn w), w\<lparr>uuid_drawn := Suc (uuid_drawn w)\<rparr>)
      in case batch_correlation_id req of
           None \<Rightarrow> fresh
         | Some c \<Rightarrow> if c = [] then fresh else (c, w))"

definition execute_batch_workflows ::
  "(task list \<Rightarrow> world \<Rightarrow> (py_error + ref) list \<times> world) \<Rightarrow> BatchWorkflowRequest \<Rightarrow> world
     \<Rightarrow> py_error + (BatchWorkflowResult \<times> world)" where
  "execute_batch_workflows gather req w =
     (case batch_id_of req w of
        (bid, w0) \<Rightarrow>
          (let start_time = clock w0
           in case prepare_tasks req bid (enumerate 0 (workflows req)) [] w0 of
                Inl e \<Rightarrow> Inl e
              | Inr (tasks, w1) \<Rightarrow>
                  (case (if fail_fast req
                         then (case await_one_by_one tasks [] w1 of
                                 Inl e \<Rightarrow> Inl e
                               | Inr (rs, w2) \<Rightarrow> Inr (map Inr rs, w2))
                         else Inr (gather tasks w1)) of
                     Inl e \<Rightarrow> Inl e
                   | Inr (results, w2) \<Rightarrow>
                       (case process_results (heap w2) results ([], 0, 0) of
                          (collected, successful_count, failed_count) \<Rightarrow>
                            Inr (\<lparr>batch_id = bid,
                                  total_workflows = length (workflows req),
                                  successful_workflows = successful_count,
                                  failed_workflows = failed_count,
                                  execution_results = collected,
                                  batch_started_at = start_time,
                                  batch_completed_at = Some (clock w2),
                                  total_duration_seconds =
                                    Some (total_seconds (clock w2 - start_time))\<rparr>, w2)))))"

section \<open>States of the running system\<close>

text \<open>
  A state is reachable when it arises from a freshly constructed manager (an empty
  queue of some capacity and concurrency cap, an empty metrics store, an idle drain
  loop) by drain-loop events, submissions, sleeps and retention cleanups.
\<close>

inductive reachable :: "world \<Rightarrow> bool" where
  start: "wqueue w = (WorkflowQueue_init n)\<lparr>max_concurrent := m\<rparr> \<Longrightarrow>
          metrics_store w = (\<lambda>_. []) \<Longrightarrow> in_flight w = None \<Longrightarrow> reachable w"
| drain: "reachable w \<Longrightarrow> reachable (run_event ev w)"
| wait: "reachable w \<Longrightarrow> reachable (sleep d w)"
| submit: "reachable w \<Longrightarrow> reachable (snd (execute_workflow wt data corr t w))"
| cleanup: "reachable w \<Longrightarrow> reachable (cleanup_old_executions days w)"

text \<open>Every address held by a container has been allocated.\<close>

definition allocated :: "world \<Rightarrow> bool" where
  "allocated w \<longleftrightarrow>
     (\<forall>r \<in> set (queue (wqueue w)). r < next_obj w) \<and>
     (\<forall>r \<in> ran (completed_workflows (wqueue w)). r < next_obj w) \<and>
     (\<forall>r \<in> set_option (in_flight w). r < next_obj w) \<and>
     (\<forall>wt. \<forall>r \<in> set (metrics_store w wt). r < next_obj w)"

definition within_bounds :: "world \<Rightarrow> bool" where
  "within_bounds w \<longleftrightarrow>
     get_running_count (wqueue w) \<le> max_concurrent (wqueue w) \<and>
     get_queue_size (wqueue w) \<le> maxlen (wqueue w) \<and>
     (\<forall>wt. length (metrics_store w wt) \<le> max_executions_per_type)"

section \<open>Example states\<close>

definition example_record ::
  "string \<Rightarrow> WorkflowType \<Rightarrow> WorkflowStatus \<Rightarrow> datetime \<Rightarrow> rat option \<Rightarrow> WorkflowExecution" where
  "example_record eid wt st t d =
     \<lparr>execution_id = eid, workflow_type = wt, status = st, input_data = [],
      output_data = None, error_message = None, started_at = t, completed_at = None,
      duration_seconds = d, n8n_execution_id = None, correlation_id = None,
      retry_count = 0\<rparr>"

text \<open>A manager as \<^verbatim>\<open>__init__\<close> leaves it, with a queue of capacity \<open>n\<close>.\<close>

definition fresh_world :: "nat \<Rightarrow> world" where
  "fresh_world n =
     \<lparr>heap = (\<lambda>_. example_record [] CUSTOMER_ANALYSIS PENDING 0 None), next_obj = 0,
      wqueue = WorkflowQueue_init n, metrics_store = (\<lambda>_. []), clock = 0,
      in_flight = None, sched = [], uuid_hex = (\<lambda>_. ''00c0ffee''), uuid_drawn = 0\<rparr>"

text \<open>A store holding the given records at addresses 0, 1, ... and, in the metrics
  store of one workflow type, the given addresses.\<close>

definition ledger_world :: "WorkflowExecution list \<Rightarrow> WorkflowType \<Rightarrow> ref list \<Rightarrow> datetime \<Rightarrow> world" where
  "ledger_world records wt refs now =
     (fresh_world 1000)
       \<lparr>heap := (\<lambda>r. if r < length records then records ! r
                      else example_record [] CUSTOMER_ANALYSIS PENDING 0 None),
        next_obj := length records,
        metrics_store := (\<lambda>_. [])(wt := refs),
        clock := now\<rparr>"

definition rejecting_world :: world where
  "rejecting_world =
     (ledger_world [example_record ''done'' CUSTOMER_ANALYSIS COMPLETED 5 (Some 1)]
        CUSTOMER_ANALYSIS [0] 10)\<lparr>wqueue := WorkflowQueue_init 0\<rparr>"

definition rate_limited_trigger :: WorkflowTriggerConfig where
  "rate_limited_trigger =
     \<lparr>trigger_name = ''rate_limited_trigger'', trigger_workflow_type = CUSTOMER_ANALYSIS,
      trigger_conditions = [], trigger_schedule = None, enabled = True,
      max_executions_per_hour = 2, data_template = []\<rparr>"

definition busy_hour_world :: world where
  "busy_hour_world =
     ledger_world
       [example_record ''a'' CUSTOMER_ANALYSIS COMPLETED 1800000000 None,
        example_record ''b'' CUSTOMER_ANALYSIS COMPLETED 1800000000 None,
        example_record ''c'' CUSTOMER_ANALYSIS COMPLETED 1800000000 None]
       CUSTOMER_ANALYSIS [0, 1, 2] 3600000000"

text \<open>A sequence of calls of \<^verbatim>\<open>_update_metrics\<close>, one per address, in order.\<close>

definition record_all :: "ref list \<Rightarrow> world \<Rightarrow> world" where
  "record_all rs w = fold (\<lambda>r w. update_metrics w r) rs w"


text \<open>
  The average duration in the words of the specification, for comparison with the
  code: the mean of the durations of the \<open>COMPLETED\<close> records whose duration is known
  (is not \<^verbatim>\<open>None\<close>), and 0 when there is no such record.
\<close>

definition known_completed_durations :: "WorkflowExecution list \<Rightarrow> rat list" where
  "known_completed_durations executions =
     concat (map (\<lambda>e. case duration_seconds e of
                         None \<Rightarrow> []
                       | Some d \<Rightarrow> if status e = COMPLETED then [d] else []) executions)"

definition spec_average_duration :: "WorkflowExecution list \<Rightarrow> rat" where
  "spec_average_duration executions =
     (let ds = known_completed_durations executions
      in if ds = [] then 0 else sum_list ds / of_nat (length ds))"

text \<open>
  Stores for the metrics: two completed records of which one took 0 seconds; the three
  records of the repository's test of the metrics; and a record submitted exactly
  seven days before the clock, held by the metrics store and by the completed map.
\<close>

definition zero_duration_world :: world where
  "zero_duration_world =
     ledger_world
       [example_record ''a'' CUSTOMER_ANALYSIS COMPLETED 0 (Some 0),
        example_record ''b'' CUSTOMER_ANALYSIS COMPLETED 0 (Some 2)]
       CUSTOMER_ANALYSIS [0, 1] 0"

definition test_metrics_world :: world where
  "test_metrics_world =
     ledger_world
       [example_record ''a'' CUSTOMER_ANALYSIS COMPLETED 0 (Some 1),
        example_record ''b'' CUSTOMER_ANALYSIS COMPLETED 0 (Some 2),
        example_record ''c'' CUSTOMER_ANALYSIS FAILED 0 None]
       CUSTOMER_ANALYSIS [0, 1, 2] 0"

definition boundary_world :: world where
  "boundary_world =
     (ledger_world
        [example_record ''edge'' CUSTOMER_ANALYSIS COMPLETED 0 None,
         example_record ''new'' CUSTOMER_ANALYSIS COMPLETED 1 None]
        CUSTOMER_ANALYSIS [0, 1] 604800000000)
       \<lparr>wqueue := (WorkflowQueue_init 1000)
          \<lparr>completed_workflows := [''edge'' \<mapsto> 0, ''new'' \<mapsto> 1]\<rparr>\<rparr>"

text \<open>
  A fail-fast batch of three workflow types, and states in which the first submission
  of the batch fails at the gateway (HTTP 500) or outlasts the default timeout.
\<close>

definition test_batch :: BatchWorkflowRequest where
  "test_batch =
     \<lparr>workflows = [CUSTOMER_ANALYSIS, CRM_LEAD_MANAGEMENT, FOLLOW_UP_SEQUENCES],
      shared_data = [(''source'', Str ''batch'')], individual_data = Map.empty,
      delay_between_workflows = 0, fail_fast = True,
      batch_correlation_id = Some ''batch_test''\<rparr>"

definition http_500 :: WorkflowExecution where
  "http_500 =
     (example_record ''customer-analysis_1700000000000'' CUSTOMER_ANALYSIS FAILED 0 None)
       \<lparr>error_message := Some ''HTTP 500: Internal Server Error'', completed_at := Some 0\<rparr>"

definition failing_gateway_world :: world where
  "failing_gateway_world =
     (fresh_world 1000)\<lparr>sched := [([DrainDequeue, GatewayDone (Returned http_500)], 0)]\<rparr>"

definition stalled_world :: world where
  "stalled_world = (fresh_world 1000)\<lparr>sched := [([], 300000000)]\<rparr>"

definition first_of_test_batch :: "world \<Rightarrow> ref \<times> world" where
  "first_of_test_batch w =
     execute_workflow CUSTOMER_ANALYSIS
       (workflow_data_for test_batch ''batch_test'' 0 CUSTOMER_ANALYSIS) (Some ''batch_test'')
       None w"

text \<open>
  A record is settled when its submission has returned and the drain loop is done with
  it: it is allocated, no longer in the queue and not held in flight.
\<close>

definition settled :: "world \<Rightarrow> ref \<Rightarrow> bool" where
  "settled w r \<longleftrightarrow> r < next_obj w \<and> r \<notin> set (queue (wqueue w)) \<and> in_flight w \<noteq> Some r"

text \<open>
  A submission with a timeout of one second that the drain loop dequeues during the
  first sleep and whose gateway call is still open when the timeout strikes; and the
  record that the gateway returns afterwards.
\<close>

definition late_world :: world where
  "late_world = (fresh_world 1000)\<lparr>sched := [([DrainDequeue], 0), ([], 0)]\<rparr>"

definition late_result :: "ref \<times> world" where
  "late_result = execute_workflow CUSTOMER_ANALYSIS [] None (Some 1) late_world"

definition engine_result :: WorkflowExecution where
  "engine_result =
     (example_record ''customer-analysis_1700000000000'' CUSTOMER_ANALYSIS COMPLETED 0 (Some 2))
       \<lparr>output_data := Some [(''workflowId'', Str ''wf-1'')], completed_at := Some 2000000,
        n8n_execution_id := Some ''wf-1''\<rparr>"

text \<open>
  The same submission when the gateway answers during the last sleep of the polling
  loop, after which the loop's guard is false.
\<close>

definition racing_world :: world where
  "racing_world =
     (fresh_world 1000)
       \<lparr>sched := [([DrainDequeue], 0), ([GatewayDone (Returned engine_result)], 0)]\<rparr>"

text \<open>
  A queue of capacity 2 that holds one record, with no drain-loop event scheduled; and
  the state after one more submission, with a timeout of one second, to that queue.
\<close>

definition half_full_world :: world where
  "half_full_world =
     (ledger_world [example_record ''customer-analysis_0badcafe'' CUSTOMER_ANALYSIS PENDING 0 None]
        CUSTOMER_ANALYSIS [] 0)
       \<lparr>wqueue := (WorkflowQueue_init 2)\<lparr>queue := [0]\<rparr>\<rparr>"

definition admitted_world :: world where
  "admitted_world = snd (execute_workflow CUSTOMER_ANALYSIS [] None (Some 1) half_full_world)"

section \<open>Invariants of the reachable states\<close>

lemma get_next_workflow_cases:
  "get_next_workflow q = (Some x, q') \<Longrightarrow>
     fcard (running_workflows q) < max_concurrent q \<and> queue q = x # queue q' \<and> q' = q\<lparr>queue := tl (queue q)\<rparr>"
  by (auto simp: get_next_workflow_def split: if_splits list.splits)

lemma get_next_workflow_None: "get_next_workflow q = (None, q') \<Longrightarrow> q' = q"
  by (auto simp: get_next_workflow_def split: if_splits list.splits)

lemma run_event_frame [simp]:
  "next_obj (run_event ev w) = next_obj w"
  "metrics_store (run_event ev w) = metrics_store w"
  "clock (run_event ev w) = clock w"
  "sched (run_event ev w) = sched w"
  "uuid_hex (run_event ev w) = uuid_hex w"
  "uuid_drawn (run_event ev w) = uuid_drawn w"
  "maxlen (wqueue (run_event ev w)) = maxlen (wqueue w)"
  "max_concurrent (wqueue (run_event ev w)) = max_concurrent (wqueue w)"
  by (cases ev; simp add: Let_def mark_running_def mark_completed_def get_next_workflow_def
         split: option.splits prod.splits if_splits list.splits)+

lemma allocated_run_event: "allocated w \<Longrightarrow> allocated (run_event ev w)"
  by (cases ev)
     (auto simp: allocated_def mark_running_def mark_completed_def get_next_workflow_def ran_def Let_def
      split: option.splits if_splits list.splits prod.splits)

lemma within_bounds_run_event: "within_bounds w \<Longrightarrow> within_bounds (run_event ev w)"
  apply (cases ev)
   apply (auto simp: within_bounds_def mark_running_def mark_completed_def get_next_workflow_def
      get_running_count_def get_queue_size_def fcard_finsert_if Let_def
      split: option.splits if_splits list.splits prod.splits)
  apply (meson fcard_fminus1_le le_trans)+
  done


declare poll.simps [simp del]

lemma fold_run_event_frame [simp]:
  "next_obj (fold run_event evs w) = next_obj w"
  "metrics_store (fold run_event evs w) = metrics_store w"
  "clock (fold run_event evs w) = clock w"
  "sched (fold run_event evs w) = sched w"
  "uuid_hex (fold run_event evs w) = uuid_hex w"
  "uuid_drawn (fold run_event evs w) = uuid_drawn w"
  "maxlen (wqueue (fold run_event evs w)) = maxlen (wqueue w)"
  "max_concurrent (wqueue (fold run_event evs w)) = max_concurrent (wqueue w)"
  by (induction evs arbitrary: w; simp)+

lemma allocated_fold_run_event: "allocated w \<Longrightarrow> allocated (fold run_event evs w)"
  by (induction evs arbitrary: w) (simp_all add: allocated_run_event)

lemma within_bounds_fold_run_event: "within_bounds w \<Longrightarrow> within_bounds (fold run_event evs w)"
  by (induction evs arbitrary: w) (simp_all add: within_bounds_run_event)

lemma allocated_env [simp]:
  "allocated (w\<lparr>clock := c\<rparr>) = allocated w"
  "allocated (w\<lparr>sched := s\<rparr>) = allocated w"
  "allocated (w\<lparr>heap := h\<rparr>) = allocated w"
  "allocated (w\<lparr>uuid_drawn := u\<rparr>) = allocated w"
  by (simp_all add: allocated_def)

lemma within_bounds_env [simp]:
  "within_bounds (w\<lparr>clock := c\<rparr>) = within_bounds w"
  "within_bounds (w\<lparr>sched := s\<rparr>) = within_bounds w"
  "within_bounds (w\<lparr>heap := h\<rparr>) = within_bounds w"
  "within_bounds (w\<lparr>uuid_drawn := u\<rparr>) = within_bounds w"
  "within_bounds (w\<lparr>next_obj := n\<rparr>) = within_bounds w"
  by (simp_all add: within_bounds_def)

lemma sleep_frame [simp]:
  "next_obj (sleep d w) = next_obj w"
  "metrics_store (sleep d w) = metrics_store w"
  "uuid_hex (sleep d w) = uuid_hex w"
  "uuid_drawn (sleep d w) = uuid_drawn w"
  "maxlen (wqueue (sleep d w)) = maxlen (wqueue w)"
  "max_concurrent (wqueue (sleep d w)) = max_concurrent (wqueue w)"
  by (simp_all add: sleep_def split: list.splits prod.splits)

lemma allocated_sleep: "allocated w \<Longrightarrow> allocated (sleep d w)"
  by (auto simp: sleep_def intro: allocated_fold_run_event split: list.splits prod.splits)

lemma within_bounds_sleep: "within_bounds w \<Longrightarrow> within_bounds (sleep d w)"
  by (auto simp: sleep_def intro: within_bounds_fold_run_event split: list.splits prod.splits)

lemma set_sorted_reverse [simp]: "set (sorted_reverse key xs) = set xs"
  by (simp add: sorted_reverse_def)

lemma length_sorted_reverse [simp]: "length (sorted_reverse key xs) = length xs"
  by (simp add: sorted_reverse_def)

lemma update_metrics_frame [simp]:
  "next_obj (update_metrics w r) = next_obj w"
  "heap (update_metrics w r) = heap w"
  "wqueue (update_metrics w r) = wqueue w"
  "in_flight (update_metrics w r) = in_flight w"
  "clock (update_metrics w r) = clock w"
  "sched (update_metrics w r) = sched w"
  "uuid_hex (update_metrics w r) = uuid_hex w"
  "uuid_drawn (update_metrics w r) = uuid_drawn w"
  by (simp_all add: update_metrics_def Let_def)

lemma allocated_update_metrics:
  "allocated w \<Longrightarrow> r < next_obj w \<Longrightarrow> allocated (update_metrics w r)"
  by (auto simp: allocated_def update_metrics_def Let_def dest!: in_set_takeD)

lemma within_bounds_update_metrics: "within_bounds w \<Longrightarrow> within_bounds (update_metrics w r)"
  by (auto simp: within_bounds_def update_metrics_def Let_def)

lemma timed_out_ok:
  "allocated w \<Longrightarrow> within_bounds w \<Longrightarrow> r < next_obj w \<Longrightarrow>
   allocated (snd (timed_out r t w)) \<and> within_bounds (snd (timed_out r t w)) \<and>
   fst (timed_out r t w) = r \<and> next_obj (snd (timed_out r t w)) = next_obj w"
  by (simp add: timed_out_def Let_def allocated_update_metrics within_bounds_update_metrics)

lemma poll_ok:
  "allocated w \<Longrightarrow> within_bounds w \<Longrightarrow> r < next_obj w \<Longrightarrow>
   allocated (snd (poll r t s w)) \<and> within_bounds (snd (poll r t s w)) \<and>
   fst (poll r t s w) < next_obj w \<and> next_obj (snd (poll r t s w)) = next_obj w"
proof (induction r t s w rule: poll.induct)
  case (1 r t s w)
  show ?case
  proof (cases "clock w - s < t * 1000000")
    case False
    then show ?thesis
      using timed_out_ok [OF "1.prems"] "1.prems" by (subst (1 2 3 4) poll.simps) simp
  next
    case guard: True
    show ?thesis
    proof (cases "completed_workflows (wqueue w) (execution_id (heap w r))")
      case (Some c)
      then have "c < next_obj w"
        using "1.prems"(1) by (auto simp: allocated_def ran_def)
      then show ?thesis
        using guard Some "1.prems"
        by (subst (1 2 3 4) poll.simps)
           (simp add: allocated_update_metrics within_bounds_update_metrics)
    next
      case None
      show ?thesis
      proof (cases "execution_id (heap w r) |\<in>| running_workflows (wqueue w)")
        case True
        then show ?thesis
          using guard None "1.IH"(1) "1.prems"
          by (subst (1 2 3 4) poll.simps)
             (simp add: allocated_sleep within_bounds_sleep)
      next
        case nr: False
        show ?thesis
        proof (cases "heap w r \<in> heap w ` set (queue (wqueue w))")
          case True
          then show ?thesis
            using guard None nr "1.IH"(2) "1.prems"
            by (subst (1 2 3 4) poll.simps)
               (simp add: allocated_sleep within_bounds_sleep)
        next
          case False
          then show ?thesis
            using guard None nr timed_out_ok [OF "1.prems"] "1.prems"
            by (subst (1 2 3 4) poll.simps) simp
        qed
      qed
    qed
  qed
qed

lemma allocated_next: "allocated w \<Longrightarrow> allocated (w\<lparr>next_obj := Suc (next_obj w)\<rparr>)"
  by (auto simp: allocated_def less_Suc_eq)

lemma execute_workflow_ok:
  assumes "allocated w" "within_bounds w"
  shows "allocated (snd (execute_workflow wt d c t w)) \<and>
         within_bounds (snd (execute_workflow wt d c t w))"
proof -
  define rec where "rec = \<lparr>execution_id = type_value wt @ ''_'' @ uuid_hex w (uuid_drawn w),
                    workflow_type = wt, status = PENDING, input_data = d,
                    output_data = None, error_message = None, started_at = clock w,
                    completed_at = None, duration_seconds = None, n8n_execution_id = None,
                    correlation_id = c, retry_count = 0\<rparr>"
  define w1 where "w1 = w\<lparr>heap := (heap w)(next_obj w := rec), next_obj := Suc (next_obj w),
                 uuid_drawn := Suc (uuid_drawn w)\<rparr>"
  have a1: "allocated w1" using assms(1) by (auto simp: allocated_def w1_def less_Suc_eq)
  have b1: "within_bounds w1" using assms(2) by (simp add: w1_def)
  show ?thesis
  proof (cases "length (queue (wqueue w)) \<ge> maxlen (wqueue w)")
    case True
    then show ?thesis
      using assms
      by (simp add: execute_workflow_def Let_def add_workflow_def allocated_next)
  next
    case False
    define w2 where "w2 = w1\<lparr>wqueue := (wqueue w1)\<lparr>queue := queue (wqueue w1) @ [next_obj w]\<rparr>\<rparr>"
    have a2: "allocated w2" using a1 by (auto simp: allocated_def w2_def w1_def)
    have b2: "within_bounds w2" using b1 False
      by (auto simp: within_bounds_def w2_def w1_def get_queue_size_def get_running_count_def)
    have n2: "next_obj w < next_obj w2" by (simp add: w2_def w1_def)
    have "execute_workflow wt d c t w =
          poll (next_obj w) (case t of None \<Rightarrow> 300 | Some t \<Rightarrow> if t = 0 then 300 else t) (clock w2) w2"
      using False
      by (simp add: execute_workflow_def Let_def add_workflow_def w2_def w1_def rec_def)
    then show ?thesis
      using poll_ok [OF a2 b2 n2] by simp
  qed
qed

lemma cleanup_ok:
  "allocated w \<Longrightarrow> within_bounds w \<Longrightarrow>
   allocated (cleanup_old_executions n w) \<and> within_bounds (cleanup_old_executions n w)"
  apply (auto simp: allocated_def within_bounds_def cleanup_old_executions_def Let_def ran_def
      get_queue_size_def get_running_count_def split: option.splits if_splits)
  apply (meson le_trans length_filter_le)
  done

lemma reachable_ok: "reachable w \<Longrightarrow> allocated w \<and> within_bounds w"
proof (induction rule: reachable.induct)
  case (start w n m)
  then show ?case
    by (simp add: allocated_def within_bounds_def WorkflowQueue_init_def get_queue_size_def
        get_running_count_def fcard_fempty)
next
  case (drain w ev)
  then show ?case by (simp add: allocated_run_event within_bounds_run_event)
next
  case (wait w d)
  then show ?case by (simp add: allocated_sleep within_bounds_sleep)
next
  case (submit w wt data corr t)
  then show ?case by (simp add: execute_workflow_ok)
next
  case (cleanup w days)
  then show ?case by (simp add: cleanup_ok)
qed

section \<open>Admission and the concurrency cap\<close>

lemma sublist_queue_is_full: "sublist ''queue is full'' ''Workflow queue is full''"
proof -
  have "sublist ''queue is full'' (''Workflow '' @ ''queue is full'')"
    by (rule sublist_append_leftI)
  then show ?thesis by simp
qed

lemma execute_workflow_rejected:
  assumes "maxlen (wqueue w) \<le> length (queue (wqueue w))"
  shows "execute_workflow wt data corr t w =
     (next_obj w,
      w\<lparr>heap := (heap w)(next_obj w :=
            \<lparr>execution_id = type_value wt @ ''_'' @ uuid_hex w (uuid_drawn w),
             workflow_type = wt, status = FAILED, input_data = data,
             output_data = None, error_message = Some ''Workflow queue is full'',
             started_at = clock w, completed_at = Some (clock w), duration_seconds = None,
             n8n_execution_id = None, correlation_id = corr, retry_count = 0\<rparr>),
         next_obj := Suc (next_obj w), uuid_drawn := Suc (uuid_drawn w)\<rparr>)"
  using assms by (simp add: execute_workflow_def add_workflow_def Let_def)

text \<open>
  C4: \<^verbatim>\<open>get_next_workflow\<close> hands out the head of the queue only while fewer than
  \<open>max_concurrent\<close> ids are running, and otherwise returns nothing and leaves the queue
  and the running set as they are; so in every reachable state the number of running
  ids is at most \<open>max_concurrent\<close>.
\<close>

theorem concurrency_bound:
  "(max_concurrent q \<le> get_running_count q \<longrightarrow> get_next_workflow q = (None, q)) \<and>
   (\<forall>x q'. get_next_workflow q = (Some x, q') \<longrightarrow>
       get_running_count q < max_concurrent q \<and> queue q = x # queue q' \<and>
       q' = q\<lparr>queue := tl (queue q)\<rparr>) \<and>
   (\<forall>q'. get_next_workflow q = (None, q') \<longrightarrow> q' = q) \<and>
   (reachable w \<longrightarrow> get_running_count (wqueue w) \<le> max_concurrent (wqueue w))"
proof (intro conjI allI impI)
  assume "max_concurrent q \<le> get_running_count q"
  then show "get_next_workflow q = (None, q)"
    by (simp add: get_next_workflow_def get_running_count_def)
next
  fix x q'
  assume "get_next_workflow q = (Some x, q')"
  from get_next_workflow_cases [OF this]
  have c: "fcard (running_workflows q) < max_concurrent q" "queue q = x # queue q'"
    "q' = q\<lparr>queue := tl (queue q)\<rparr>"
    by blast+
  show "get_running_count q < max_concurrent q"
    unfolding get_running_count_def by (rule c(1))
  show "queue q = x # queue q'" by (rule c(2))
  show "q' = q\<lparr>queue := tl (queue q)\<rparr>" by (rule c(3))
next
  fix q'
  assume "get_next_workflow q = (None, q')"
  then show "q' = q" by (rule get_next_workflow_None)
next
  assume "reachable w"
  then show "get_running_count (wqueue w) \<le> max_concurrent (wqueue w)"
    using reachable_ok [of w] by (simp add: within_bounds_def)
qed

theorem concurrency_bound_witness:
  "get_next_workflow ((WorkflowQueue_init 1000)\<lparr>queue := [0, 1], running_workflows := {|''a''|}, max_concurrent := 1\<rparr>)
     = (None, (WorkflowQueue_init 1000)\<lparr>queue := [0, 1], running_workflows := {|''a''|}, max_concurrent := 1\<rparr>) \<and>
   get_next_workflow ((WorkflowQueue_init 1000)\<lparr>queue := [0, 1]\<rparr>)
     = (Some 0, (WorkflowQueue_init 1000)\<lparr>queue := [1]\<rparr>) \<and>
   get_running_count ((WorkflowQueue_init 1000)\<lparr>queue := [0, 1]\<rparr>)
     < max_concurrent ((WorkflowQueue_init 1000)\<lparr>queue := [0, 1]\<rparr>) \<and>
   reachable (run_event DrainDequeue (snd (execute_workflow CUSTOMER_ANALYSIS [] None (Some 1) (fresh_world 1000)))) \<and>
   get_running_count (wqueue (run_event DrainDequeue (snd (execute_workflow CUSTOMER_ANALYSIS [] None (Some 1) (fresh_world 1000)))))
     \<le> max_concurrent (wqueue (run_event DrainDequeue (snd (execute_workflow CUSTOMER_ANALYSIS [] None (Some 1) (fresh_world 1000)))))"
proof -
  let ?full = "(WorkflowQueue_init 1000)\<lparr>queue := [0, 1], running_workflows := {|''a''|}, max_concurrent := 1\<rparr>"
  let ?free = "(WorkflowQueue_init 1000)\<lparr>queue := [0, 1]\<rparr>"
  let ?w = "run_event DrainDequeue (snd (execute_workflow CUSTOMER_ANALYSIS [] None (Some 1) (fresh_world 1000)))"
  have full: "max_concurrent ?full \<le> get_running_count ?full"
    by (simp add: get_running_count_def WorkflowQueue_init_def fcard_finsert_if fcard_fempty)
  have free: "get_next_workflow ?free = (Some 0, (WorkflowQueue_init 1000)\<lparr>queue := [1]\<rparr>)"
    by (simp add: get_next_workflow_def WorkflowQueue_init_def fcard_fempty)
  have r: "reachable ?w"
    by (intro reachable.drain reachable.submit reachable.start [where n = 1000 and m = 5])
       (simp_all add: fresh_world_def WorkflowQueue_init_def)
  have a: "get_next_workflow ?full = (None, ?full)"
    using concurrency_bound [of ?full ?w] full by blast
  have b: "get_running_count ?free < max_concurrent ?free"
    using concurrency_bound [of ?free ?w] free by blast
  have c: "get_running_count (wqueue ?w) \<le> max_concurrent (wqueue ?w)"
    using concurrency_bound [of ?free ?w] r by blast
  show ?thesis
    using a b c free r by blast
qed

lemma sleep_no_drain:
  "sched w = [] \<Longrightarrow>
   sched (sleep d w) = [] \<and> wqueue (sleep d w) = wqueue w \<and> heap (sleep d w) = heap w"
  by (simp add: sleep_def)

lemma poll_no_drain:
  "sched w = [] \<Longrightarrow>
   wqueue (snd (poll e t s w)) = wqueue w \<and> next_obj (snd (poll e t s w)) = next_obj w \<and>
   workflow_type (heap (snd (poll e t s w)) r) = workflow_type (heap w r) \<and>
   input_data (heap (snd (poll e t s w)) r) = input_data (heap w r)"
proof (induction e t s w rule: poll.induct)
  case (1 e t s w)
  note sl = sleep_no_drain [OF "1.prems"]
  show ?case
  proof (cases "clock w - s < t * 1000000")
    case False
    then show ?thesis by (subst (1 2 3 4) poll.simps) (simp add: timed_out_def Let_def)
  next
    case guard: True
    show ?thesis
    proof (cases "completed_workflows (wqueue w) (execution_id (heap w e))")
      case (Some c)
      then show ?thesis using guard by (subst (1 2 3 4) poll.simps) simp
    next
      case None
      show ?thesis
      proof (cases "execution_id (heap w e) |\<in>| running_workflows (wqueue w)")
        case True
        from "1.IH"(1) [OF guard None True] sl [of 1000000]
        show ?thesis using guard None True by (subst (1 2 3 4) poll.simps) simp
      next
        case nr: False
        show ?thesis
        proof (cases "heap w e \<in> heap w ` set (queue (wqueue w))")
          case True
          from "1.IH"(2) [OF guard None nr True] sl [of 500000]
          show ?thesis using guard None nr True by (subst (1 2 3 4) poll.simps) simp
        next
          case False
          then show ?thesis
            using guard None nr by (subst (1 2 3 4) poll.simps) (simp add: timed_out_def Let_def)
        qed
      qed
    qed
  qed
qed

lemma execute_workflow_admitted:
  assumes "length (queue (wqueue w)) < maxlen (wqueue w)"
  shows "execute_workflow wt data corr t w =
     poll (next_obj w) (case t of None \<Rightarrow> 300 | Some t \<Rightarrow> if t = 0 then 300 else t) (clock w)
       (w\<lparr>heap := (heap w)(next_obj w :=
              \<lparr>execution_id = type_value wt @ ''_'' @ uuid_hex w (uuid_drawn w),
               workflow_type = wt, status = PENDING, input_data = data,
               output_data = None, error_message = None, started_at = clock w,
               completed_at = None, duration_seconds = None, n8n_execution_id = None,
               correlation_id = corr, retry_count = 0\<rparr>),
          next_obj := Suc (next_obj w), uuid_drawn := Suc (uuid_drawn w),
          wqueue := (wqueue w)\<lparr>queue := queue (wqueue w) @ [next_obj w]\<rparr>\<rparr>)"
  using assms by (simp add: execute_workflow_def add_workflow_def Let_def)

lemma execute_workflow_admitted_no_drain:
  assumes "length (queue (wqueue w)) < maxlen (wqueue w)" and "sched w = []"
  shows "wqueue (snd (execute_workflow wt data corr t w))
           = (wqueue w)\<lparr>queue := queue (wqueue w) @ [next_obj w]\<rparr>"
    and "next_obj (snd (execute_workflow wt data corr t w)) = Suc (next_obj w)"
    and "workflow_type (heap (snd (execute_workflow wt data corr t w)) (next_obj w)) = wt"
    and "input_data (heap (snd (execute_workflow wt data corr t w)) (next_obj w)) = data"
  using assms(2) by (simp_all add: execute_workflow_admitted [OF assms(1)] poll_no_drain)


text \<open>
  C5: when the queue already holds \<open>maxlen\<close> records, \<^verbatim>\<open>add_workflow\<close> returns false
  and changes nothing, and \<^verbatim>\<open>execute_workflow\<close> returns at once (no sleep is taken:
  the clock and the schedule are untouched) a record that is \<open>FAILED\<close> with the message
  "Workflow queue is full". Below capacity \<^verbatim>\<open>add_workflow\<close> appends the record, and
  \<^verbatim>\<open>execute_workflow\<close> admits its submission: it starts polling in the state where the
  new \<open>PENDING\<close> record stands at the end of the queue, and while no drain-loop event
  runs the call ends with the queue longer by exactly that record. In every reachable
  state the queue is no longer than its capacity.
\<close>

theorem queue_full_rejected:
  "(maxlen q \<le> get_queue_size q \<longrightarrow> add_workflow q e = (False, q)) \<and>
   (get_queue_size q < maxlen q \<longrightarrow> add_workflow q e = (True, q\<lparr>queue := queue q @ [e]\<rparr>)) \<and>
   (maxlen (wqueue w) \<le> get_queue_size (wqueue w) \<longrightarrow>
      (case execute_workflow wt data corr t w of
         (r, w') \<Rightarrow>
           status (heap w' r) = FAILED \<and>
           error_message (heap w' r) = Some ''Workflow queue is full'' \<and>
           sublist ''queue is full'' (the (error_message (heap w' r))) \<and>
           completed_at (heap w' r) = Some (clock w) \<and>
           wqueue w' = wqueue w \<and> clock w' = clock w \<and> sched w' = sched w)) \<and>
   (reachable w \<longrightarrow> get_queue_size (wqueue w) \<le> maxlen (wqueue w)) \<and>
   (get_queue_size (wqueue w) < maxlen (wqueue w) \<longrightarrow>
      execute_workflow wt data corr t w =
        poll (next_obj w) (case t of None \<Rightarrow> 300 | Some t \<Rightarrow> if t = 0 then 300 else t)
          (clock w)
          (w\<lparr>heap := (heap w)(next_obj w :=
                 \<lparr>execution_id = type_value wt @ ''_'' @ uuid_hex w (uuid_drawn w),
                  workflow_type = wt, status = PENDING, input_data = data,
                  output_data = None, error_message = None, started_at = clock w,
                  completed_at = None, duration_seconds = None, n8n_execution_id = None,
                  correlation_id = corr, retry_count = 0\<rparr>),
             next_obj := Suc (next_obj w), uuid_drawn := Suc (uuid_drawn w),
             wqueue := (wqueue w)\<lparr>queue := queue (wqueue w) @ [next_obj w]\<rparr>\<rparr>)) \<and>
   (get_queue_size (wqueue w) < maxlen (wqueue w) \<and> sched w = [] \<longrightarrow>
      wqueue (snd (execute_workflow wt data corr t w))
        = (wqueue w)\<lparr>queue := queue (wqueue w) @ [next_obj w]\<rparr> \<and>
      next_obj (snd (execute_workflow wt data corr t w)) = Suc (next_obj w) \<and>
      workflow_type (heap (snd (execute_workflow wt data corr t w)) (next_obj w)) = wt \<and>
      input_data (heap (snd (execute_workflow wt data corr t w)) (next_obj w)) = data)"
proof (intro conjI impI)
  assume "maxlen q \<le> get_queue_size q"
  then show "add_workflow q e = (False, q)"
    by (simp add: add_workflow_def get_queue_size_def)
next
  assume "get_queue_size q < maxlen q"
  then show "add_workflow q e = (True, q\<lparr>queue := queue q @ [e]\<rparr>)"
    by (simp add: add_workflow_def get_queue_size_def)
next
  assume "maxlen (wqueue w) \<le> get_queue_size (wqueue w)"
  then have "maxlen (wqueue w) \<le> length (queue (wqueue w))"
    by (simp add: get_queue_size_def)
  from execute_workflow_rejected [OF this, of wt data corr t]
  show "case execute_workflow wt data corr t w of
         (r, w') \<Rightarrow>
           status (heap w' r) = FAILED \<and>
           error_message (heap w' r) = Some ''Workflow queue is full'' \<and>
           sublist ''queue is full'' (the (error_message (heap w' r))) \<and>
           completed_at (heap w' r) = Some (clock w) \<and>
           wqueue w' = wqueue w \<and> clock w' = clock w \<and> sched w' = sched w"
    using sublist_queue_is_full by simp
next
  assume "reachable w"
  then show "get_queue_size (wqueue w) \<le> maxlen (wqueue w)"
    using reachable_ok [of w] by (simp add: within_bounds_def)
next
  assume "get_queue_size (wqueue w) < maxlen (wqueue w)"
  then have "length (queue (wqueue w)) < maxlen (wqueue w)"
    by (simp add: get_queue_size_def)
  then show "execute_workflow wt data corr t w =
        poll (next_obj w) (case t of None \<Rightarrow> 300 | Some t \<Rightarrow> if t = 0 then 300 else t)
          (clock w)
          (w\<lparr>heap := (heap w)(next_obj w :=
                 \<lparr>execution_id = type_value wt @ ''_'' @ uuid_hex w (uuid_drawn w),
                  workflow_type = wt, status = PENDING, input_data = data,
                  output_data = None, error_message = None, started_at = clock w,
                  completed_at = None, duration_seconds = None, n8n_execution_id = None,
                  correlation_id = corr, retry_count = 0\<rparr>),
             next_obj := Suc (next_obj w), uuid_drawn := Suc (uuid_drawn w),
             wqueue := (wqueue w)\<lparr>queue := queue (wqueue w) @ [next_obj w]\<rparr>\<rparr>)"
    by (rule execute_workflow_admitted)
next
  assume a: "get_queue_size (wqueue w) < maxlen (wqueue w) \<and> sched w = []"
  then have l: "length (queue (wqueue w)) < maxlen (wqueue w)" and s: "sched w = []"
    by (simp_all add: get_queue_size_def)
  show "wqueue (snd (execute_workflow wt data corr t w))
        = (wqueue w)\<lparr>queue := queue (wqueue w) @ [next_obj w]\<rparr>"
    by (rule execute_workflow_admitted_no_drain(1) [OF l s])
  show "next_obj (snd (execute_workflow wt data corr t w)) = Suc (next_obj w)"
    by (rule execute_workflow_admitted_no_drain(2) [OF l s])
  show "workflow_type (heap (snd (execute_workflow wt data corr t w)) (next_obj w)) = wt"
    by (rule execute_workflow_admitted_no_drain(3) [OF l s])
  show "input_data (heap (snd (execute_workflow wt data corr t w)) (next_obj w)) = data"
    by (rule execute_workflow_admitted_no_drain(4) [OF l s])
qed


theorem queue_full_rejected_witness:
  "add_workflow ((WorkflowQueue_init 1)\<lparr>queue := [0]\<rparr>) 7 = (False, (WorkflowQueue_init 1)\<lparr>queue := [0]\<rparr>) \<and>
   add_workflow (WorkflowQueue_init 1) 7
     = (True, (WorkflowQueue_init 1)\<lparr>queue := queue (WorkflowQueue_init 1) @ [7]\<rparr>) \<and>
   (case execute_workflow CUSTOMER_ANALYSIS [] None None (fresh_world 0) of
      (r, w') \<Rightarrow>
        status (heap w' r) = FAILED \<and>
        error_message (heap w' r) = Some ''Workflow queue is full'' \<and>
        sublist ''queue is full'' (the (error_message (heap w' r))) \<and>
        completed_at (heap w' r) = Some (clock (fresh_world 0)) \<and>
        wqueue w' = wqueue (fresh_world 0) \<and> clock w' = clock (fresh_world 0) \<and>
        sched w' = sched (fresh_world 0)) \<and>
   reachable (fresh_world 0) \<and>
   get_queue_size (wqueue (fresh_world 0)) \<le> maxlen (wqueue (fresh_world 0)) \<and>
   queue (wqueue half_full_world) = [0] \<and> maxlen (wqueue half_full_world) = 2 \<and>
   sched half_full_world = [] \<and>
   queue (wqueue admitted_world) = [0, 1] \<and> maxlen (wqueue admitted_world) = 2 \<and>
   workflow_type (heap admitted_world 1) = CUSTOMER_ANALYSIS \<and>
   (case execute_workflow CRM_LEAD_MANAGEMENT [] None None admitted_world of
      (r, w') \<Rightarrow>
        status (heap w' r) = FAILED \<and>
        error_message (heap w' r) = Some ''Workflow queue is full'' \<and>
        sublist ''queue is full'' (the (error_message (heap w' r))) \<and>
        completed_at (heap w' r) = Some (clock admitted_world) \<and>
        wqueue w' = wqueue admitted_world \<and> clock w' = clock admitted_world \<and>
        sched w' = sched admitted_world)"
proof -
  let ?full = "(WorkflowQueue_init 1)\<lparr>queue := [0]\<rparr>"
  have full: "maxlen ?full \<le> get_queue_size ?full"
    by (simp add: WorkflowQueue_init_def get_queue_size_def)
  have free: "get_queue_size (WorkflowQueue_init 1) < maxlen (WorkflowQueue_init 1)"
    by (simp add: WorkflowQueue_init_def get_queue_size_def)
  have wfull: "maxlen (wqueue (fresh_world 0)) \<le> get_queue_size (wqueue (fresh_world 0))"
    by (simp add: fresh_world_def WorkflowQueue_init_def get_queue_size_def)
  have r: "reachable (fresh_world 0)"
    by (rule reachable.start [where n = 0 and m = 5])
       (simp_all add: fresh_world_def WorkflowQueue_init_def)
  have hq: "queue (wqueue half_full_world) = [0]" and hm: "maxlen (wqueue half_full_world) = 2"
    and hs: "sched half_full_world = []" and hn: "next_obj half_full_world = 1"
    by (simp_all add: half_full_world_def ledger_world_def fresh_world_def WorkflowQueue_init_def)
  have below: "get_queue_size (wqueue half_full_world) < maxlen (wqueue half_full_world)
      \<and> sched half_full_world = []"
    by (simp add: hq hm hs get_queue_size_def)
  note at_full = queue_full_rejected [of ?full 7 "fresh_world 0" CUSTOMER_ANALYSIS "[]" None None]
  note at_free = queue_full_rejected [of "WorkflowQueue_init 1" 7 "fresh_world 0" CUSTOMER_ANALYSIS "[]" None None]
  note at_half = queue_full_rejected [of ?full 7 half_full_world CUSTOMER_ANALYSIS "[]" None "Some 1",
      THEN conjunct2, THEN conjunct2, THEN conjunct2, THEN conjunct2, THEN conjunct2, THEN mp,
      OF below, folded admitted_world_def]
  have aq: "queue (wqueue admitted_world) = [0, 1]"
    and am: "maxlen (wqueue admitted_world) = 2"
    using at_half [THEN conjunct1] by (simp_all add: hq hm hn)
  have at: "workflow_type (heap admitted_world 1) = CUSTOMER_ANALYSIS"
    using at_half [THEN conjunct2, THEN conjunct2, THEN conjunct1] by (simp add: hn)
  have afull: "maxlen (wqueue admitted_world) \<le> get_queue_size (wqueue admitted_world)"
    by (simp add: aq am get_queue_size_def)
  note at_admitted = queue_full_rejected [of ?full 7 admitted_world CRM_LEAD_MANAGEMENT "[]" None None]
  show ?thesis
    by (intro conjI
        at_full [THEN conjunct1, THEN mp, OF full]
        at_free [THEN conjunct2, THEN conjunct1, THEN mp, OF free]
        at_full [THEN conjunct2, THEN conjunct2, THEN conjunct1, THEN mp, OF wfull]
        at_full [THEN conjunct2, THEN conjunct2, THEN conjunct2, THEN conjunct1, THEN mp, OF r] r
        hq hm hs aq am at
        at_admitted [THEN conjunct2, THEN conjunct2, THEN conjunct1, THEN mp, OF afull])
qed

section \<open>The metrics store\<close>

lemma get_workflow_metrics_cong:
  "map (heap w') (metrics_store w' k) = map (heap w) (metrics_store w k) \<Longrightarrow>
   get_workflow_metrics w' k = get_workflow_metrics w k"
  by (simp add: get_workflow_metrics_def)

text \<open>
  C10: a submission rejected at admission is never recorded: the metrics store, the
  records it points at, the metrics of every workflow type and the last-hour entries
  that the trigger rate limit counts are the same after the call as before.
\<close>

theorem rejected_submission_leaves_ledger:
  assumes "maxlen (wqueue w) \<le> get_queue_size (wqueue w)" and "allocated w"
  shows "case execute_workflow wt data corr t w of
           (r, w') \<Rightarrow>
             metrics_store w' = metrics_store w \<and>
             (\<forall>k. map (heap w') (metrics_store w' k) = map (heap w) (metrics_store w k)) \<and>
             (\<forall>k. get_workflow_metrics w' k = get_workflow_metrics w k) \<and>
             (\<forall>k now. recent_executions w' k now = recent_executions w k now)"
proof -
  obtain r w' where rw: "execute_workflow wt data corr t w = (r, w')"
    by (cases "execute_workflow wt data corr t w")
  have full: "maxlen (wqueue w) \<le> length (queue (wqueue w))"
    using assms(1) by (simp add: get_queue_size_def)
  have ms: "metrics_store w' = metrics_store w"
    using execute_workflow_rejected [OF full, of wt data corr t] rw by auto
  have old: "heap w' x = heap w x" if "x \<in> set (metrics_store w k)" for x k
  proof -
    from that assms(2) have "x < next_obj w" by (auto simp: allocated_def)
    with execute_workflow_rejected [OF full, of wt data corr t] rw
    show ?thesis by auto
  qed
  have maps: "map (heap w') (metrics_store w' k) = map (heap w) (metrics_store w k)" for k
    unfolding ms by (rule map_cong [OF refl]) (rule old)
  have recent: "recent_executions w' k now = recent_executions w k now" for k now
    unfolding recent_executions_def ms
    by (rule filter_cong [OF refl]) (simp add: old)
  show ?thesis
    unfolding rw using ms maps recent get_workflow_metrics_cong [OF maps] by simp
qed

theorem rejected_submission_leaves_ledger_witness:
  "maxlen (wqueue rejecting_world) \<le> get_queue_size (wqueue rejecting_world) \<and>
   allocated rejecting_world \<and>
   metrics_store rejecting_world CUSTOMER_ANALYSIS = [0] \<and>
   (case execute_workflow CUSTOMER_ANALYSIS [] None None rejecting_world of
      (r, w') \<Rightarrow>
        metrics_store w' = metrics_store rejecting_world \<and>
        (\<forall>k. map (heap w') (metrics_store w' k)
               = map (heap rejecting_world) (metrics_store rejecting_world k)) \<and>
        (\<forall>k. get_workflow_metrics w' k = get_workflow_metrics rejecting_world k) \<and>
        (\<forall>k now. recent_executions w' k now = recent_executions rejecting_world k now))"
proof -
  have full: "maxlen (wqueue rejecting_world) \<le> get_queue_size (wqueue rejecting_world)"
    by (simp add: rejecting_world_def WorkflowQueue_init_def get_queue_size_def)
  have alloc: "allocated rejecting_world"
    by (simp add: rejecting_world_def ledger_world_def fresh_world_def WorkflowQueue_init_def
        allocated_def)
  have ledger: "metrics_store rejecting_world CUSTOMER_ANALYSIS = [0]"
    by (simp add: rejecting_world_def ledger_world_def)
  show ?thesis
    by (intro conjI full alloc ledger
        rejected_submission_leaves_ledger [OF full alloc, of CUSTOMER_ANALYSIS "[]" None None])
qed

text \<open>
  C8: \<^verbatim>\<open>_should_trigger_workflow\<close> answers false in every case, in particular when
  the entries of the last hour for the trigger's workflow type number at least
  \<open>max_executions_per_hour\<close>: with no condition evaluator, no trigger ever fires.
\<close>

theorem trigger_never_fires:
  "\<not> should_trigger_workflow w cfg now \<and>
   (max_executions_per_hour cfg
      \<le> int (length (recent_executions w (trigger_workflow_type cfg) now))
    \<longrightarrow> should_trigger_workflow w cfg now = False)"
  by (simp add: should_trigger_workflow_def)


theorem trigger_never_fires_witness:
  "length (recent_executions busy_hour_world
             (trigger_workflow_type rate_limited_trigger) 3600000000) = 3 \<and>
   max_executions_per_hour rate_limited_trigger = 2 \<and>
   \<not> should_trigger_workflow busy_hour_world rate_limited_trigger 3600000000"
proof -
  have n: "length (recent_executions busy_hour_world
             (trigger_workflow_type rate_limited_trigger) 3600000000) = 3"
    by (simp add: recent_executions_def busy_hour_world_def ledger_world_def
        rate_limited_trigger_def example_record_def timedelta_hours_def)
  have m: "max_executions_per_hour rate_limited_trigger = 2"
    by (simp add: rate_limited_trigger_def)
  have "max_executions_per_hour rate_limited_trigger
      \<le> int (length (recent_executions busy_hour_world
             (trigger_workflow_type rate_limited_trigger) 3600000000))"
    by (simp add: n m)
  with trigger_never_fires [of busy_hour_world rate_limited_trigger 3600000000]
  have "should_trigger_workflow busy_hour_world rate_limited_trigger 3600000000 = False"
    by blast
  with n m show ?thesis by simp
qed

section \<open>Pruning of the metrics store\<close>



lemma sorted_reverse_eq_Nil [simp]: "sorted_reverse key xs = [] \<longleftrightarrow> xs = []"
  using length_sorted_reverse [of key xs] by (metis length_0_conv)




lemma record_all_frame [simp]:
  "heap (record_all rs w) = heap w"
  by (induction rs arbitrary: w) (simp_all add: record_all_def)



lemma update_metrics_other:
  "workflow_type (heap w r) \<noteq> k \<Longrightarrow> metrics_store (update_metrics w r) k = metrics_store w k"
  by (simp add: update_metrics_def Let_def)











section \<open>Metrics and retention\<close>

lemma get_workflow_metrics_counts:
  "total_executions (get_workflow_metrics w k) = length (metrics_store w k)"
  "successful_executions (get_workflow_metrics w k)
     = length (filter (\<lambda>e. status (heap w e) = COMPLETED) (metrics_store w k))"
  "failed_executions (get_workflow_metrics w k)
     = length (filter (\<lambda>e. status (heap w e) = FAILED) (metrics_store w k))"
  "success_rate (get_workflow_metrics w k)
     = (if metrics_store w k = [] then 0
        else of_nat (successful_executions (get_workflow_metrics w k))
               / of_nat (total_executions (get_workflow_metrics w k)) * 100)"
  by (simp_all add: get_workflow_metrics_def Let_def filter_map comp_def)

lemma get_workflow_metrics_average:
  "average_duration_seconds (get_workflow_metrics w k)
     = (let ds = completed_durations (map (heap w) (metrics_store w k))
        in if ds = [] then 0 else sum_list ds / of_nat (length ds))"
  by (simp add: get_workflow_metrics_def Let_def completed_durations_def)

lemma completed_durations_nonzero:
  "\<forall>e \<in> set executions. status e = COMPLETED \<longrightarrow> duration_seconds e \<noteq> Some 0 \<Longrightarrow>
   completed_durations executions = known_completed_durations executions"
  by (induction executions)
     (auto simp: completed_durations_def known_completed_durations_def truthy_def
           split: option.splits)

lemma average_agrees_without_zero:
  "\<forall>e \<in> set (metrics_store w k).
      status (heap w e) = COMPLETED \<longrightarrow> duration_seconds (heap w e) \<noteq> Some 0 \<Longrightarrow>
   average_duration_seconds (get_workflow_metrics w k)
     = spec_average_duration (map (heap w) (metrics_store w k))"
  by (simp add: get_workflow_metrics_average spec_average_duration_def
      completed_durations_nonzero)

lemma get_workflow_metrics_example:
  "total_executions (get_workflow_metrics test_metrics_world CUSTOMER_ANALYSIS) = 3"
  "successful_executions (get_workflow_metrics test_metrics_world CUSTOMER_ANALYSIS) = 2"
  "failed_executions (get_workflow_metrics test_metrics_world CUSTOMER_ANALYSIS) = 1"
  "average_duration_seconds (get_workflow_metrics test_metrics_world CUSTOMER_ANALYSIS) = 3 / 2"
  "success_rate (get_workflow_metrics test_metrics_world CUSTOMER_ANALYSIS) = 200 / 3"
  "\<bar>success_rate (get_workflow_metrics test_metrics_world CUSTOMER_ANALYSIS) - 6667 / 100\<bar> < 1 / 100"
  by (simp_all add: get_workflow_metrics_def Let_def test_metrics_world_def ledger_world_def
      example_record_def completed_durations_def truthy_def)

text \<open>
  C7: \<^verbatim>\<open>get_workflow_metrics\<close> is to average the durations of the \<open>COMPLETED\<close> records
  with a known duration. The counts, the success rate and the example of the claim hold
  (\<open>get_workflow_metrics_counts\<close>, \<open>get_workflow_metrics_example\<close>), and the average
  agrees wherever no completed record has duration 0 (\<open>average_agrees_without_zero\<close>).
  At two completed records with the known durations 0 and 2 seconds the code returns
  the average 2, where the mean over the completed records with a known duration is 1:
  the filter \<^verbatim>\<open>if e.duration_seconds and ...\<close> drops the duration \<^verbatim>\<open>0.0\<close> with \<^verbatim>\<open>None\<close>.
\<close>

theorem average_skips_zero_duration:
  "map (\<lambda>e. (status e, duration_seconds e))
     (map (heap zero_duration_world) (metrics_store zero_duration_world CUSTOMER_ANALYSIS))
     = [(COMPLETED, Some 0), (COMPLETED, Some 2)] \<and>
   average_duration_seconds (get_workflow_metrics zero_duration_world CUSTOMER_ANALYSIS) = 2 \<and>
   spec_average_duration
     (map (heap zero_duration_world) (metrics_store zero_duration_world CUSTOMER_ANALYSIS)) = 1"
  by (simp add: get_workflow_metrics_def Let_def zero_duration_world_def ledger_world_def
      example_record_def completed_durations_def truthy_def spec_average_duration_def
      known_completed_durations_def)

lemma cleanup_old_executions_keeps:
  "metrics_store (cleanup_old_executions days w) k
     = filter (\<lambda>e. clock w - timedelta_days days < started_at (heap w e)) (metrics_store w k)"
  "completed_workflows (wqueue (cleanup_old_executions days w)) eid = Some e \<longleftrightarrow>
     completed_workflows (wqueue w) eid = Some e \<and>
     clock w - timedelta_days days \<le> started_at (heap w e)"
  by (auto simp: cleanup_old_executions_def Let_def split: option.splits)

text \<open>
  C9: \<^verbatim>\<open>cleanup_old_executions\<close> is to remove from both structures exactly the entries
  submitted strictly before the cutoff. The completed map does so
  (\<open>cleanup_old_executions_keeps\<close>); the metrics store keeps only entries submitted
  strictly after the cutoff. At an entry submitted exactly at the cutoff, held by
  both, the call drops it from the metrics store and keeps it in the completed map.
\<close>

theorem cleanup_boundary_differs:
  "started_at (heap boundary_world 0) = clock boundary_world - timedelta_days 7 \<and>
   metrics_store boundary_world CUSTOMER_ANALYSIS = [0, 1] \<and>
   completed_workflows (wqueue boundary_world) ''edge'' = Some 0 \<and>
   metrics_store (cleanup_old_executions 7 boundary_world) CUSTOMER_ANALYSIS = [1] \<and>
   completed_workflows (wqueue (cleanup_old_executions 7 boundary_world)) ''edge'' = Some 0"
  by (simp add: cleanup_old_executions_def Let_def boundary_world_def ledger_world_def
      fresh_world_def example_record_def timedelta_days_def)

section \<open>Fail-fast batches\<close>

lemma await_awaited:
  "await (c, True) w = Inl (RuntimeError ''cannot reuse already awaited coroutine'')"
  by (cases c) (simp add: await_def)

lemma await_fresh:
  "await (Coroutine wt data corr, False) w = Inr (execute_workflow wt data corr None w)"
  by (simp add: await_def)

lemma prepare_tasks_fail_fast:
  assumes "fail_fast req" and "\<forall>t \<in> set tasks. snd t"
  shows "\<exists>tasks' w'. prepare_tasks req bid kinds tasks w = Inr (tasks', w') \<and>
           (\<forall>t \<in> set tasks'. snd t) \<and> (kinds \<noteq> [] \<or> tasks \<noteq> [] \<longrightarrow> tasks' \<noteq> [])"
  using assms(2)
proof (induction kinds arbitrary: tasks w)
  case Nil
  then show ?case by simp
next
  case (Cons a kinds)
  obtain i wt where a: "a = (i, wt)" by (cases a)
  define w1 where "w1 = (if delay_between_workflows req > 0 \<and> i > 0
                then sleep (nat (delay_between_workflows req * 1000)) w else w)"
  define task where "task = Coroutine wt (workflow_data_for req bid i wt) (Some bid)"
  obtain r w2 where ex: "execute_workflow wt (workflow_data_for req bid i wt) (Some bid) None w1 = (r, w2)"
    by (cases "execute_workflow wt (workflow_data_for req bid i wt) (Some bid) None w1")
  have all: "\<forall>t \<in> set (tasks @ [(task, True)]). snd t"
    using Cons.prems by simp
  from Cons.IH [OF all, of w2]
  obtain tasks' w' where rest:
    "prepare_tasks req bid kinds (tasks @ [(task, True)]) w2 = Inr (tasks', w')"
    "\<forall>t \<in> set tasks'. snd t" "tasks' \<noteq> []"
    by auto
  show ?case
  proof (cases "status (heap w2 r) = FAILED")
    case True
    then show ?thesis
      using assms(1) ex all
      by (simp add: a Let_def await_fresh w1_def [symmetric] task_def [symmetric])
  next
    case False
    then show ?thesis
      using assms(1) ex rest
      by (simp add: a Let_def await_fresh w1_def [symmetric] task_def [symmetric])
  qed
qed

lemma await_one_by_one_awaited:
  "tasks \<noteq> [] \<Longrightarrow> \<forall>t \<in> set tasks. snd t \<Longrightarrow>
   await_one_by_one tasks results w = Inl (RuntimeError ''cannot reuse already awaited coroutine'')"
  by (cases tasks) (auto simp: await_awaited)

lemma execute_batch_fail_fast:
  assumes "fail_fast req" and "workflows req \<noteq> []"
  shows "execute_batch_workflows gather req w
           = Inl (RuntimeError ''cannot reuse already awaited coroutine'')"
proof -
  obtain bid w0 where b: "batch_id_of req w = (bid, w0)"
    by (cases "batch_id_of req w")
  have ne: "enumerate 0 (workflows req) \<noteq> []"
    using assms(2) by (cases "workflows req") simp_all
  from prepare_tasks_fail_fast [OF assms(1), of "[]" bid "enumerate 0 (workflows req)" w0] ne
  obtain tasks w1 where p:
    "prepare_tasks req bid (enumerate 0 (workflows req)) [] w0 = Inr (tasks, w1)"
    "\<forall>t \<in> set tasks. snd t" "tasks \<noteq> []"
    by auto
  show ?thesis
    using assms(1) b p(1) await_one_by_one_awaited [OF p(3) p(2), of "[]" w1]
    by (simp add: execute_batch_workflows_def Let_def)
qed

text \<open>
  C2: \<^verbatim>\<open>execute_workflow\<close> is a total function into records, and a batch is to come
  back as a \<^verbatim>\<open>BatchWorkflowResult\<close> without an exception reaching the caller. With
  \<^verbatim>\<open>fail_fast\<close> and at least one workflow type the call raises instead: the first
  loop has awaited every coroutine it created, and the second loop awaits the first of
  them again, which is a \<^verbatim>\<open>RuntimeError\<close>.
\<close>

theorem fail_fast_batch_raises:
  assumes "fail_fast req" and "workflows req \<noteq> []"
  shows "\<exists>e. execute_batch_workflows gather req w = Inl e"
  using execute_batch_fail_fast [OF assms] by simp

theorem fail_fast_batch_raises_witness:
  "fail_fast test_batch \<and> workflows test_batch \<noteq> [] \<and>
   (\<exists>e. execute_batch_workflows (\<lambda>tasks w. ([], w)) test_batch failing_gateway_world = Inl e)"
proof -
  have f: "fail_fast test_batch" by (simp add: test_batch_def)
  have n: "workflows test_batch \<noteq> []" by (simp add: test_batch_def)
  show ?thesis
    by (intro conjI f n fail_fast_batch_raises [OF f n])
qed


lemma first_of_test_batch_status:
  "status (heap (snd (first_of_test_batch failing_gateway_world))
              (fst (first_of_test_batch failing_gateway_world))) = FAILED"
  "status (heap (snd (first_of_test_batch stalled_world))
              (fst (first_of_test_batch stalled_world))) = TIMEOUT"
  by (simp_all add: first_of_test_batch_def execute_workflow_def failing_gateway_world_def
      stalled_world_def fresh_world_def WorkflowQueue_init_def add_workflow_def Let_def
      poll.simps sleep_def get_next_workflow_def mark_running_def mark_completed_def
      fcard_fempty timed_out_def update_metrics_def max_executions_per_type_def
      example_record_def http_500_def)

text \<open>
  C1: a batch with \<^verbatim>\<open>fail_fast\<close> over the kinds \<open>[A, B, C]\<close>. The first loop runs the
  submissions one after the other: when A ends \<open>FAILED\<close> it stops with A as the only
  task, B and C never submitted; when A ends otherwise (for one, \<open>TIMEOUT\<close>) it goes
  on to B from the state A left. The request is then to return a result holding A
  alone with one failure; the call raises \<^verbatim>\<open>RuntimeError\<close> from the second loop instead.
\<close>

theorem fail_fast_stops_then_raises:
  assumes "fail_fast req" and "workflows req = [A, B, C]"
    and "batch_id_of req w = (bid, w0)"
    and "execute_workflow A (workflow_data_for req bid 0 A) (Some bid) None w0 = (r, w1)"
  shows "(status (heap w1 r) = FAILED \<longrightarrow>
            prepare_tasks req bid (enumerate 0 (workflows req)) [] w0
              = Inr ([(Coroutine A (workflow_data_for req bid 0 A) (Some bid), True)], w1)) \<and>
         (status (heap w1 r) \<noteq> FAILED \<longrightarrow>
            prepare_tasks req bid (enumerate 0 (workflows req)) [] w0
              = prepare_tasks req bid [(1, B), (2, C)]
                  [(Coroutine A (workflow_data_for req bid 0 A) (Some bid), True)] w1) \<and>
         execute_batch_workflows gather req w
           = Inl (RuntimeError ''cannot reuse already awaited coroutine'')"
proof (intro conjI impI)
  have step: "prepare_tasks req bid ((0, A) # rest) [] w0 =
      (if status (heap w1 r) = FAILED
       then Inr ([(Coroutine A (workflow_data_for req bid 0 A) (Some bid), True)], w1)
       else prepare_tasks req bid rest
              [(Coroutine A (workflow_data_for req bid 0 A) (Some bid), True)] w1)" for rest
    using assms(1,4) by (simp add: Let_def await_fresh)
  have e: "enumerate 0 (workflows req) = (0, A) # [(1, B), (2, C)]"
    by (simp add: assms(2))
  {
    assume "status (heap w1 r) = FAILED"
    then show "prepare_tasks req bid (enumerate 0 (workflows req)) [] w0
              = Inr ([(Coroutine A (workflow_data_for req bid 0 A) (Some bid), True)], w1)"
      unfolding e step by simp
  next
    assume "status (heap w1 r) \<noteq> FAILED"
    then show "prepare_tasks req bid (enumerate 0 (workflows req)) [] w0
              = prepare_tasks req bid [(1, B), (2, C)]
                  [(Coroutine A (workflow_data_for req bid 0 A) (Some bid), True)] w1"
      unfolding e step by (simp del: prepare_tasks.simps)
  }
next
  have "workflows req \<noteq> []" using assms(2) by simp
  from execute_batch_fail_fast [OF assms(1) this]
  show "execute_batch_workflows gather req w
           = Inl (RuntimeError ''cannot reuse already awaited coroutine'')" .
qed


theorem fail_fast_stops_then_raises_witness:
  "fail_fast test_batch \<and>
   workflows test_batch = [CUSTOMER_ANALYSIS, CRM_LEAD_MANAGEMENT, FOLLOW_UP_SEQUENCES] \<and>
   status (heap (snd (first_of_test_batch failing_gateway_world))
              (fst (first_of_test_batch failing_gateway_world))) = FAILED \<and>
   prepare_tasks test_batch ''batch_test'' (enumerate 0 (workflows test_batch)) []
       failing_gateway_world
     = Inr ([(Coroutine CUSTOMER_ANALYSIS
                (workflow_data_for test_batch ''batch_test'' 0 CUSTOMER_ANALYSIS)
                (Some ''batch_test''), True)],
            snd (first_of_test_batch failing_gateway_world)) \<and>
   execute_batch_workflows (\<lambda>tasks w. ([], w)) test_batch failing_gateway_world
     = Inl (RuntimeError ''cannot reuse already awaited coroutine'') \<and>
   status (heap (snd (first_of_test_batch stalled_world))
              (fst (first_of_test_batch stalled_world))) \<noteq> FAILED \<and>
   prepare_tasks test_batch ''batch_test'' (enumerate 0 (workflows test_batch)) [] stalled_world
     = prepare_tasks test_batch ''batch_test''
         [(1, CRM_LEAD_MANAGEMENT), (2, FOLLOW_UP_SEQUENCES)]
         [(Coroutine CUSTOMER_ANALYSIS
             (workflow_data_for test_batch ''batch_test'' 0 CUSTOMER_ANALYSIS)
             (Some ''batch_test''), True)]
         (snd (first_of_test_batch stalled_world))"
proof -
  have f: "fail_fast test_batch" by (simp add: test_batch_def)
  have k: "workflows test_batch = [CUSTOMER_ANALYSIS, CRM_LEAD_MANAGEMENT, FOLLOW_UP_SEQUENCES]"
    by (simp add: test_batch_def)
  have b: "batch_id_of test_batch w = (''batch_test'', w)" for w
    by (simp add: batch_id_of_def test_batch_def)
  have x: "execute_workflow CUSTOMER_ANALYSIS
             (workflow_data_for test_batch ''batch_test'' 0 CUSTOMER_ANALYSIS)
             (Some ''batch_test'') None w
           = (fst (first_of_test_batch w), snd (first_of_test_batch w))" for w
    by (simp add: first_of_test_batch_def)
  have failed: "status (heap (snd (first_of_test_batch failing_gateway_world))
              (fst (first_of_test_batch failing_gateway_world))) = FAILED"
    by (rule first_of_test_batch_status(1))
  have late: "status (heap (snd (first_of_test_batch stalled_world))
              (fst (first_of_test_batch stalled_world))) \<noteq> FAILED"
    by (simp add: first_of_test_batch_status(2))
  note at_failing = fail_fast_stops_then_raises [OF f k b x, of failing_gateway_world "\<lambda>tasks w. ([], w)"]
  note at_stalled = fail_fast_stops_then_raises [OF f k b x, of stalled_world "\<lambda>tasks w. ([], w)"]
  show ?thesis
    by (intro conjI f k failed late
        at_failing [THEN conjunct1, THEN mp, OF failed]
        at_failing [THEN conjunct2, THEN conjunct2]
        at_stalled [THEN conjunct2, THEN conjunct1, THEN mp, OF late])
qed

section \<open>Records after a terminal state\<close>

lemma run_event_settled:
  "settled w r \<Longrightarrow> heap (run_event ev w) r = heap w r \<and> settled (run_event ev w) r"
  by (cases ev)
     (auto simp: settled_def Let_def get_next_workflow_def mark_running_def mark_completed_def
           split: option.splits prod.splits if_splits list.splits)

lemma fold_run_event_settled:
  "settled w r \<Longrightarrow> heap (fold run_event evs w) r = heap w r \<and> settled (fold run_event evs w) r"
proof (induction evs arbitrary: w)
  case Nil
  then show ?case by simp
next
  case (Cons ev evs)
  from run_event_settled [OF Cons.prems, of ev] Cons.IH [of "run_event ev w"]
  show ?case by simp
qed

lemma settled_env [simp]:
  "settled (w\<lparr>clock := c\<rparr>) r = settled w r"
  "settled (w\<lparr>sched := s\<rparr>) r = settled w r"
  "settled (w\<lparr>heap := h\<rparr>) r = settled w r"
  "settled (w\<lparr>uuid_drawn := u\<rparr>) r = settled w r"
  "settled (w\<lparr>metrics_store := m\<rparr>) r = settled w r"
  by (simp_all add: settled_def)

lemma sleep_settled:
  "settled w r \<Longrightarrow> heap (sleep d w) r = heap w r \<and> settled (sleep d w) r"
  using fold_run_event_settled [of "w\<lparr>sched := tl (sched w)\<rparr>" r]
  by (auto simp: sleep_def split: list.splits prod.splits)

lemma update_metrics_settled [simp]: "settled (update_metrics w e) r = settled w r"
  by (simp add: settled_def)

lemma timed_out_settled:
  "settled w r \<Longrightarrow> r \<noteq> e \<Longrightarrow>
   heap (snd (timed_out e t w)) r = heap w r \<and> settled (snd (timed_out e t w)) r"
  by (simp add: timed_out_def Let_def)

lemma poll_settled:
  "settled w r \<Longrightarrow> r \<noteq> e \<Longrightarrow>
   heap (snd (poll e t s w)) r = heap w r \<and> settled (snd (poll e t s w)) r"
proof (induction e t s w rule: poll.induct)
  case (1 e t s w)
  note to = timed_out_settled [OF "1.prems", of t]
  show ?case
  proof (cases "clock w - s < t * 1000000")
    case False
    then show ?thesis using to by (subst (1 2) poll.simps) simp
  next
    case guard: True
    show ?thesis
    proof (cases "completed_workflows (wqueue w) (execution_id (heap w e))")
      case (Some c)
      then show ?thesis
        using guard "1.prems" by (subst (1 2) poll.simps) simp
    next
      case None
      show ?thesis
      proof (cases "execution_id (heap w e) |\<in>| running_workflows (wqueue w)")
        case True
        from sleep_settled [OF "1.prems"(1), of 1000000]
          "1.IH"(1) [OF guard None True _ "1.prems"(2)]
        show ?thesis
          using guard None True by (subst (1 2) poll.simps) simp
      next
        case nr: False
        show ?thesis
        proof (cases "heap w e \<in> heap w ` set (queue (wqueue w))")
          case True
          from sleep_settled [OF "1.prems"(1), of 500000]
            "1.IH"(2) [OF guard None nr True _ "1.prems"(2)]
          show ?thesis
            using guard None nr True by (subst (1 2) poll.simps) simp
        next
          case False
          then show ?thesis
            using guard None nr to by (subst (1 2) poll.simps) simp
        qed
      qed
    qed
  qed
qed

lemma execute_workflow_settled:
  assumes "settled w r"
  shows "heap (snd (execute_workflow wt d c t w)) r = heap w r \<and>
         settled (snd (execute_workflow wt d c t w)) r"
proof -
  have r: "r < next_obj w" using assms by (simp add: settled_def)
  define rec where "rec = \<lparr>execution_id = type_value wt @ ''_'' @ uuid_hex w (uuid_drawn w),
                    workflow_type = wt, status = PENDING, input_data = d,
                    output_data = None, error_message = None, started_at = clock w,
                    completed_at = None, duration_seconds = None, n8n_execution_id = None,
                    correlation_id = c, retry_count = 0\<rparr>"
  show ?thesis
  proof (cases "length (queue (wqueue w)) \<ge> maxlen (wqueue w)")
    case True
    then show ?thesis
      using assms r by (simp add: execute_workflow_rejected settled_def)
  next
    case False
    define w2 where "w2 = w\<lparr>heap := (heap w)(next_obj w := rec), next_obj := Suc (next_obj w),
                 uuid_drawn := Suc (uuid_drawn w),
                 wqueue := (wqueue w)\<lparr>queue := queue (wqueue w) @ [next_obj w]\<rparr>\<rparr>"
    have s2: "settled w2 r" and h2: "heap w2 r = heap w r"
      using assms r by (simp_all add: settled_def w2_def)
    have "execute_workflow wt d c t w =
          poll (next_obj w) (case t of None \<Rightarrow> 300 | Some t \<Rightarrow> if t = 0 then 300 else t) (clock w2) w2"
      using False
      by (simp add: execute_workflow_def Let_def add_workflow_def w2_def rec_def)
    then show ?thesis
      using poll_settled [OF s2, of "next_obj w"] r h2 by simp
  qed
qed

lemma cleanup_settled:
  "settled w r \<Longrightarrow> heap (cleanup_old_executions n w) r = heap w r \<and>
     settled (cleanup_old_executions n w) r"
  by (simp add: cleanup_old_executions_def Let_def settled_def)


lemmas evaluate_submission =
  execute_workflow_def fresh_world_def WorkflowQueue_init_def add_workflow_def Let_def
  poll.simps sleep_def get_next_workflow_def mark_running_def mark_completed_def
  fcard_fempty timed_out_def update_metrics_def max_executions_per_type_def
  example_record_def

lemma late_result_state:
  "fst late_result = 0"
  "status (heap (snd late_result) 0) = TIMEOUT"
  "metrics_store (snd late_result) CUSTOMER_ANALYSIS = [0]"
  "in_flight (snd late_result) = Some 0"
  by (simp_all add: late_result_def late_world_def evaluate_submission)

text \<open>
  C3, as stated: no step changes a record that is in a terminal state. It fails: a
  submission times out while the drain loop holds its record in flight; the record is
  \<open>TIMEOUT\<close> and in the metrics store; the write-back of the gateway's outcome then sets
  its status to \<open>COMPLETED\<close> and replaces its duration.
\<close>

theorem timed_out_record_overwritten:
  "fst late_result = 0 \<and>
   status (heap (snd late_result) 0) = TIMEOUT \<and>
   metrics_store (snd late_result) CUSTOMER_ANALYSIS = [0] \<and>
   status (heap (run_event (GatewayDone (Returned engine_result)) (snd late_result)) 0)
     = COMPLETED \<and>
   duration_seconds (heap (run_event (GatewayDone (Returned engine_result)) (snd late_result)) 0)
     \<noteq> duration_seconds (heap (snd late_result) 0) \<and>
   metrics_store (run_event (GatewayDone (Returned engine_result)) (snd late_result))
     CUSTOMER_ANALYSIS = [0]"
  by (simp add: late_result_def late_world_def evaluate_submission engine_result_def)

lemma failed_record_settled:
  "settled (snd (first_of_test_batch failing_gateway_world)) 0"
  "status (heap (snd (first_of_test_batch failing_gateway_world)) 0) = FAILED"
  by (simp_all add: settled_def first_of_test_batch_def failing_gateway_world_def
      http_500_def evaluate_submission)

text \<open>
  C3, amended: a settled record (its submission has returned, it is neither in the
  queue nor in flight), so in particular a settled record in a terminal state, is
  changed by no later step: drain-loop event, sleep, further submission, metrics update
  or cleanup, and it stays settled. The write-back of the drain loop is unconditional:
  whatever the state of the record in flight, its status, output, error, completion
  time, duration and engine id become those of the gateway's outcome.
\<close>

theorem settled_record_never_changes:
  "(settled w r \<longrightarrow>
      (heap (run_event ev w) r = heap w r \<and> settled (run_event ev w) r) \<and>
      (heap (sleep d w) r = heap w r \<and> settled (sleep d w) r) \<and>
      (heap (snd (execute_workflow wt data corr t w)) r = heap w r \<and>
         settled (snd (execute_workflow wt data corr t w)) r) \<and>
      (heap (update_metrics w e) r = heap w r \<and> settled (update_metrics w e) r) \<and>
      (heap (cleanup_old_executions days w) r = heap w r \<and>
         settled (cleanup_old_executions days w) r)) \<and>
   (in_flight w = Some r \<longrightarrow>
      status (heap (run_event (GatewayDone (Returned res)) w) r) = status res \<and>
      output_data (heap (run_event (GatewayDone (Returned res)) w) r) = output_data res \<and>
      error_message (heap (run_event (GatewayDone (Returned res)) w) r) = error_message res \<and>
      completed_at (heap (run_event (GatewayDone (Returned res)) w) r) = completed_at res \<and>
      duration_seconds (heap (run_event (GatewayDone (Returned res)) w) r)
        = duration_seconds res \<and>
      n8n_execution_id (heap (run_event (GatewayDone (Returned res)) w) r)
        = n8n_execution_id res)"
proof (intro conjI impI)
  assume s: "settled w r"
  show "heap (run_event ev w) r = heap w r" "settled (run_event ev w) r"
    using run_event_settled [OF s, of ev] by simp_all
  show "heap (sleep d w) r = heap w r" "settled (sleep d w) r"
    using sleep_settled [OF s, of d] by simp_all
  show "heap (snd (execute_workflow wt data corr t w)) r = heap w r"
    "settled (snd (execute_workflow wt data corr t w)) r"
    using execute_workflow_settled [OF s, of wt data corr t] by simp_all
  show "heap (update_metrics w e) r = heap w r" "settled (update_metrics w e) r"
    using s by simp_all
  show "heap (cleanup_old_executions days w) r = heap w r"
    "settled (cleanup_old_executions days w) r"
    using cleanup_settled [OF s, of days] by simp_all
next
  assume f: "in_flight w = Some r"
  then show "status (heap (run_event (GatewayDone (Returned res)) w) r) = status res"
    "output_data (heap (run_event (GatewayDone (Returned res)) w) r) = output_data res"
    "error_message (heap (run_event (GatewayDone (Returned res)) w) r) = error_message res"
    "completed_at (heap (run_event (GatewayDone (Returned res)) w) r) = completed_at res"
    "duration_seconds (heap (run_event (GatewayDone (Returned res)) w) r)
        = duration_seconds res"
    "n8n_execution_id (heap (run_event (GatewayDone (Returned res)) w) r)
        = n8n_execution_id res"
    by (simp_all add: Let_def)
qed


theorem settled_record_never_changes_witness:
  "settled (snd (first_of_test_batch failing_gateway_world)) 0 \<and>
   status (heap (snd (first_of_test_batch failing_gateway_world)) 0) = FAILED \<and>
   heap (run_event (GatewayDone (Returned engine_result))
           (snd (first_of_test_batch failing_gateway_world))) 0
     = heap (snd (first_of_test_batch failing_gateway_world)) 0 \<and>
   heap (snd (execute_workflow CRM_LEAD_MANAGEMENT [] None None
                (snd (first_of_test_batch failing_gateway_world)))) 0
     = heap (snd (first_of_test_batch failing_gateway_world)) 0 \<and>
   in_flight (snd late_result) = Some 0 \<and>
   status (heap (run_event (GatewayDone (Returned engine_result)) (snd late_result)) 0)
     = status engine_result"
proof -
  let ?w = "snd (first_of_test_batch failing_gateway_world)"
  note s = failed_record_settled(1)
  note f = late_result_state(4)
  note at_settled = settled_record_never_changes
    [of ?w 0 "GatewayDone (Returned engine_result)" 0 CRM_LEAD_MANAGEMENT "[]" None None 0 0
        engine_result, THEN conjunct1, THEN mp, OF s]
  note at_flight = settled_record_never_changes
    [of "snd late_result" 0 DrainDequeue 0 CRM_LEAD_MANAGEMENT "[]" None None 0 0
        engine_result, THEN conjunct2, THEN mp, OF f]
  show ?thesis
    by (intro conjI s failed_record_settled(2) f
        at_settled [THEN conjunct1, THEN conjunct1]
        at_settled [THEN conjunct2, THEN conjunct2, THEN conjunct1, THEN conjunct1]
        at_flight [THEN conjunct1])
qed

text \<open>
  The polling loop does not look at the completed map once its guard is false: a
  record that the drain loop completed during the last sleep is in the completed map,
  carries the gateway's output, and is marked \<open>TIMEOUT\<close> by its own submission.
\<close>

lemma completed_record_timed_out:
  "fst (execute_workflow CUSTOMER_ANALYSIS [] None (Some 1) racing_world) = 0"
  "completed_workflows
     (wqueue (snd (execute_workflow CUSTOMER_ANALYSIS [] None (Some 1) racing_world)))
     ''customer-analysis_00c0ffee'' = Some 0"
  "output_data (heap (snd (execute_workflow CUSTOMER_ANALYSIS [] None (Some 1) racing_world)) 0)
     = output_data engine_result"
  "status (heap (snd (execute_workflow CUSTOMER_ANALYSIS [] None (Some 1) racing_world)) 0)
     = TIMEOUT"
  by (simp_all add: racing_world_def engine_result_def evaluate_submission)

end
